theory Spec2Isabelle
  imports Main
begin

section \<open>The checks model of the Gerrit web client\<close>

text \<open>
  This theory embeds the class \<open>ChecksModel\<close> (the checks model of PolyGerrit, file
  \<open>src/unnamed/part_000\<close>) and proves properties of its state store, of the selector
  \<open>checksSelected$\<close>, of \<open>setPatchset\<close>, of \<open>triggerAction\<close> and of \<open>register\<close>.

  Conventions of the embedding:
  \<^item> a JavaScript number that holds a change number, a patchset number or an attempt is an
    \<open>int\<close> (the code never computes with fractions or \<open>NaN\<close> in these places);
  \<^item> an optional property, and a value that may be \<open>undefined\<close>, is an \<open>option\<close>;
    a property that is absent and a property that holds \<open>undefined\<close> are both \<open>None\<close>;
  \<^item> an exception is a value \<open>Inl e\<close> of the result type \<open>error + 'a\<close>;
  \<^item> an object whose identity matters carries the address it was allocated at;
  \<^item> the dictionaries keyed by plugin name are maps; the order of their keys is not
    modelled, and plugin names are assumed not to be names of properties that every
    JavaScript object inherits (such as \<open>constructor\<close>);
  \<^item> the reactive pipelines (polling, fetching, the subscriptions of the constructor) and
    \<open>finalize\<close> are outside the model: the methods are modelled as they behave when
    called on a model that has not been finalized.
\<close>

subsection \<open>Objects with identity\<close>

text \<open>
  The model class never writes to an object after it has published it: every method
  copies the snapshot (\<open>{...this.privateState$.getValue()}\<close>), copies the dictionary it
  changes (\<open>getPluginState\<close>) and builds new entries, arrays, runs and results. So an
  object can be represented by its content together with its address, and two
  references are identical exactly when the addresses are. Addresses are handed out by a
  counter (\<open>nextAddr\<close> below). Identity is recorded for snapshots, arrays of runs, runs and
  results; every other object is represented by its content.
\<close>

type_synonym address = nat

datatype 'a obj = Obj (addr: address) (val: 'a)

datatype error = TypeError | Error string

subsection \<open>Truthiness and string conversion\<close>

definition truthyNumber :: "int option \<Rightarrow> bool" where
  "truthyNumber n = (case n of None \<Rightarrow> False | Some k \<Rightarrow> k \<noteq> 0)"

definition truthyString :: "string option \<Rightarrow> bool" where
  "truthyString s = (case s of None \<Rightarrow> False | Some t \<Rightarrow> t \<noteq> [])"

fun string_of_nat :: "nat \<Rightarrow> string" where
  "string_of_nat n =
     (if n < 10 then [''0123456789'' ! n]
      else string_of_nat (n div 10) @ [''0123456789'' ! (n mod 10)])"

declare string_of_nat.simps [simp del]

definition string_of_int :: "int \<Rightarrow> string" where
  "string_of_int k = (if k < 0 then ''-'' @ string_of_nat (nat (- k)) else string_of_nat (nat k))"

text \<open>\<open>${x}\<close> in a template literal, for an optional number.\<close>

definition string_of_number :: "int option \<Rightarrow> string" where
  "string_of_number n = (case n of None \<Rightarrow> ''undefined'' | Some k \<Rightarrow> string_of_int k)"

subsection \<open>The data of the checks API\<close>

text \<open>
  The interfaces \<open>CheckResult\<close>, \<open>CheckRun\<close>, \<open>Action\<close> and \<open>Link\<close> of the plugin API are
  declared in \<open>api/checks\<close>, and \<open>AttemptDetail\<close> in \<open>checks-util\<close>. The records below
  hold the properties the model reads, and a few of the others that it only copies.
\<close>

datatype Category = SUCCESS | INFO | WARNING | ERROR

datatype RunStatus = RUNNABLE | SCHEDULED | RUNNING | COMPLETED

record CheckResultApi =
  externalId :: "string option"
  category :: Category
  summary :: string
  message :: "string option"

text \<open>\<open>interface CheckResult extends CheckResultApi\<close>.\<close>

record CheckResult = CheckResultApi +
  internalResultId :: string

text \<open>
  A run of the API (\<open>CheckRunApi\<close>) holds results of the API; a run of the model
  (\<open>CheckRun\<close>) holds results of the model, each an object with an address. The type
  parameter is the type of the results.
\<close>

record 'r CheckRunApi =
  change :: int
  patchset :: int
  attempt :: "int option"
  externalId :: "string option"
  checkName :: string
  status :: RunStatus
  results :: "'r list option"

record AttemptDetail =
  attempt :: "int option"
  icon :: string

record AttemptInfo =
  latestAttempt :: "int option"
  isSingleAttempt :: bool
  attempts :: "AttemptDetail list"

text \<open>\<open>interface CheckRun extends CheckRunApi\<close>.\<close>

record 'r CheckRun = "'r CheckRunApi" +
  pluginName :: string
  internalRunId :: string
  isLatestAttempt :: bool
  isSingleAttempt :: bool
  attemptDetails :: "AttemptDetail list"

record Link =
  url :: string
  primary :: bool

text \<open>
  What the promise that an action's callback returns does within five seconds: it
  resolves with a result, or it is still pending when the timer fires. A callback may
  also return something that is no promise. A callback that throws and a promise that
  is rejected are not modelled.
\<close>

record ActionResult =
  message :: "string option"
  errorMessage :: "string option"
  shouldReload :: "bool option"

datatype CallbackReturn = NoPromise | Pending | Resolved ActionResult

type_synonym ActionCallback =
  "int \<Rightarrow> int \<Rightarrow> int option \<Rightarrow> string option \<Rightarrow> string option \<Rightarrow> string \<Rightarrow> CallbackReturn"

record Action =
  name :: string
  callback :: "ActionCallback option"

text \<open>Functions and providers that the model only stores are identified by an address.\<close>

datatype LoginCallback = LoginCallback address

datatype ChecksProvider = ChecksProvider address

record ChecksApiConfig =
  fetchPollingIntervalSeconds :: "int option"

subsection \<open>The state\<close>

datatype ChecksPatchset = LATEST | SELECTED

text \<open>
  \<open>interface ChecksProviderState\<close>. Every property is optional here, because
  \<open>{...pluginState[pluginName], loading: true}\<close> for a plugin without an entry is an
  object that has the property \<open>loading\<close> only.
\<close>

record ChecksProviderState =
  pluginName :: "string option"
  loading :: "bool option"
  firstTimeLoad :: "bool option"
  errorMessage :: "string option"
  loginCallback :: "LoginCallback option"
  runs :: "(CheckResult obj CheckRun obj) list obj option"
  actions :: "Action list option"
  links :: "Link list option"

record ChecksState =
  patchsetNumberSelected :: "int option"
  pluginStateLatest :: "string \<rightharpoonup> ChecksProviderState"
  pluginStateSelected :: "string \<rightharpoonup> ChecksProviderState"

text \<open>The pipelines the model has subscribed to.\<close>

datatype Subscription =
  ChangeNumSubscription
  | CheckToPluginMapSubscription
  | PatchNumSubscription
  | FetchPipeline string ChecksPatchset int

datatype ReloadSubject = BehaviorSubject

text \<open>
  The fields of \<open>class ChecksModel\<close>. \<open>privateState\<close> is the current value of the
  subject \<open>privateState$\<close>, and \<open>published\<close> lists the snapshots that were passed to
  \<open>privateState$.next\<close>, oldest first. \<open>console\<close> lists the warnings written to the
  console.
\<close>

record ChecksModel =
  providers :: "string \<rightharpoonup> ChecksProvider"
  reloadSubjects :: "string \<rightharpoonup> ReloadSubject"
  checkToPluginMap :: "string \<rightharpoonup> string"
  changeNum :: "int option"
  latestPatchNum :: "int option"
  subscriptions :: "Subscription list"
  privateState :: "ChecksState obj"
  published :: "ChecksState obj list"
  console :: "string list"
  nextAddr :: address

definition initialModel :: ChecksModel where
  "initialModel =
     \<lparr>providers = Map.empty, reloadSubjects = Map.empty, checkToPluginMap = Map.empty,
      changeNum = None, latestPatchNum = None,
      subscriptions = [ChangeNumSubscription, CheckToPluginMapSubscription, PatchNumSubscription],
      privateState =
        Obj 0 \<lparr>patchsetNumberSelected = None, pluginStateLatest = Map.empty,
               pluginStateSelected = Map.empty\<rparr>,
      published = [], console = [], nextAddr = 1\<rparr>"

subsection \<open>The selector of the selected patchset\<close>

text \<open>
  \<open>checksSelected$ = select(this.checksState$, state => state.patchsetNumberSelected ?
  state.pluginStateSelected : state.pluginStateLatest)\<close>: the projection that \<open>select\<close>
  applies to every snapshot. The condition is the truthiness of the number.
\<close>

definition checksSelected :: "ChecksState \<Rightarrow> (string \<rightharpoonup> ChecksProviderState)" where
  "checksSelected state =
     (if truthyNumber (patchsetNumberSelected state) then pluginStateSelected state
      else pluginStateLatest state)"

subsection \<open>The state store\<close>

text \<open>\<open>this.privateState$.next(nextState)\<close>.\<close>

definition privateStateNext :: "ChecksState obj \<Rightarrow> ChecksModel \<Rightarrow> ChecksModel" where
  "privateStateNext nextState m =
     m\<lparr>privateState := nextState, published := published m @ [nextState]\<rparr>"

text \<open>
  \<open>getPluginState\<close> replaces one dictionary of the given snapshot by a copy and returns
  the copy, so that a later write to the copy is a write to the snapshot.
  \<open>getPluginState\<close> below is the dictionary returned, and \<open>putPluginState\<close> is the
  snapshot after the writes to that dictionary.
\<close>

definition getPluginState ::
  "ChecksState \<Rightarrow> ChecksPatchset \<Rightarrow> (string \<rightharpoonup> ChecksProviderState)" where
  "getPluginState state which =
     (if which = LATEST then pluginStateLatest state else pluginStateSelected state)"

definition putPluginState ::
  "ChecksState \<Rightarrow> ChecksPatchset \<Rightarrow> (string \<rightharpoonup> ChecksProviderState) \<Rightarrow> ChecksState" where
  "putPluginState state which pluginState =
     (if which = LATEST then state\<lparr>pluginStateLatest := pluginState\<rparr>
      else state\<lparr>pluginStateSelected := pluginState\<rparr>)"

text \<open>\<open>{...entry}\<close> for an entry that may be \<open>undefined\<close>.\<close>

definition emptyObject :: ChecksProviderState where
  "emptyObject =
     \<lparr>pluginName = None, loading = None, firstTimeLoad = None, errorMessage = None,
      loginCallback = None, runs = None, actions = None, links = None\<rparr>"

definition spread :: "ChecksProviderState option \<Rightarrow> ChecksProviderState" where
  "spread entry = (case entry of None \<Rightarrow> emptyObject | Some e \<Rightarrow> e)"

text \<open>
  In each method the copy of the snapshot is allocated first, at \<open>nextAddr\<close>, and the
  arrays of runs after it.
\<close>

definition updateStateSetProvider :: "string \<Rightarrow> ChecksPatchset \<Rightarrow> ChecksModel \<Rightarrow> ChecksModel" where
  "updateStateSetProvider plugin which m =
     (let a = nextAddr m;
          nextState = val (privateState m);
          pluginState = getPluginState nextState which;
          entry = \<lparr>pluginName = Some plugin, loading = Some False, firstTimeLoad = Some True,
                   errorMessage = None, loginCallback = None, runs = Some (Obj (a + 1) []),
                   actions = Some [], links = Some []\<rparr>
      in privateStateNext (Obj a (putPluginState nextState which (pluginState(plugin \<mapsto> entry))))
           (m\<lparr>nextAddr := a + 2\<rparr>))"

definition updateStateSetLoading :: "string \<Rightarrow> ChecksPatchset \<Rightarrow> ChecksModel \<Rightarrow> ChecksModel" where
  "updateStateSetLoading plugin which m =
     (let a = nextAddr m;
          nextState = val (privateState m);
          pluginState = getPluginState nextState which;
          entry = (spread (pluginState plugin))\<lparr>loading := Some True\<rparr>
      in privateStateNext (Obj a (putPluginState nextState which (pluginState(plugin \<mapsto> entry))))
           (m\<lparr>nextAddr := a + 1\<rparr>))"

definition updateStateSetError ::
  "string \<Rightarrow> string \<Rightarrow> ChecksPatchset \<Rightarrow> ChecksModel \<Rightarrow> ChecksModel" where
  "updateStateSetError plugin msg which m =
     (let a = nextAddr m;
          nextState = val (privateState m);
          pluginState = getPluginState nextState which;
          entry = (spread (pluginState plugin))
                    \<lparr>loading := Some False, firstTimeLoad := Some False,
                     errorMessage := Some msg, loginCallback := None,
                     runs := Some (Obj (a + 1) []), actions := Some []\<rparr>
      in privateStateNext (Obj a (putPluginState nextState which (pluginState(plugin \<mapsto> entry))))
           (m\<lparr>nextAddr := a + 2\<rparr>))"

definition updateStateSetNotLoggedIn ::
  "string \<Rightarrow> LoginCallback \<Rightarrow> ChecksPatchset \<Rightarrow> ChecksModel \<Rightarrow> ChecksModel" where
  "updateStateSetNotLoggedIn plugin cb which m =
     (let a = nextAddr m;
          nextState = val (privateState m);
          pluginState = getPluginState nextState which;
          entry = (spread (pluginState plugin))
                    \<lparr>loading := Some False, firstTimeLoad := Some False,
                     errorMessage := None, loginCallback := Some cb,
                     runs := Some (Obj (a + 1) []), actions := Some []\<rparr>
      in privateStateNext (Obj a (putPluginState nextState which (pluginState(plugin \<mapsto> entry))))
           (m\<lparr>nextAddr := a + 2\<rparr>))"

definition updateStateSetPatchset :: "int option \<Rightarrow> ChecksModel \<Rightarrow> ChecksModel" where
  "updateStateSetPatchset patchsetNumber m =
     (let a = nextAddr m;
          nextState = (val (privateState m))\<lparr>patchsetNumberSelected := patchsetNumber\<rparr>
      in privateStateNext (Obj a nextState) (m\<lparr>nextAddr := a + 1\<rparr>))"

definition setPatchset :: "int option \<Rightarrow> ChecksModel \<Rightarrow> ChecksModel" where
  "setPatchset num m = updateStateSetPatchset (if num = latestPatchNum m then None else num) m"

subsection \<open>Storing the results of a fetch\<close>

text \<open>
  \<open>createAttemptMap\<close> is imported from \<open>checks-util\<close>, which is not among the sources
  here, so it is a parameter of \<open>updateStateSetResults\<close>: a function from the runs to an
  exception or to the map from check names to \<open>AttemptInfo\<close>.

  \<open>attemptInfo.attempts.sort((a, b) => (a.attempt ?? -1) - (b.attempt ?? -1))\<close> is a
  stable sort on the key \<open>attempt ?? -1\<close>.
\<close>

definition sortAttempts :: "AttemptInfo \<Rightarrow> AttemptInfo" where
  "sortAttempts info =
     info\<lparr>attempts :=
       sort_key (\<lambda>d. case AttemptDetail.attempt d of None \<Rightarrow> - 1 | Some k \<Rightarrow> k) (attempts info)\<rparr>"

text \<open>\<open>run.results ?? []\<close>.\<close>

definition resultsOrEmpty :: "('r, 'z) CheckRunApi_scheme \<Rightarrow> 'r list" where
  "resultsOrEmpty run = (case results run of None \<Rightarrow> [] | Some rs \<Rightarrow> rs)"

text \<open>
  \<open>(run.results ?? []).map((result, i) => ({...result, internalResultId: `${runId}-${i}`}))\<close>,
  from index \<open>i\<close> on; every new result is allocated at the next free address.
\<close>

fun mapResults ::
  "string \<Rightarrow> nat \<Rightarrow> CheckResultApi list \<Rightarrow> address \<Rightarrow> CheckResult obj list \<times> address" where
  "mapResults runId i [] a = ([], a)"
| "mapResults runId i (result # rest) a =
     (let (rest', a') = mapResults runId (Suc i) rest (Suc a)
      in (Obj a \<lparr>CheckResultApi.externalId = CheckResultApi.externalId result,
                 category = category result, summary = summary result,
                 CheckResultApi.message = CheckResultApi.message result,
                 internalResultId = runId @ ''-'' @ string_of_nat i\<rparr> # rest', a'))"

text \<open>
  The callback of \<open>runs.map(run => {...})\<close>. \<open>assertIsDefined(attemptInfo, 'attemptInfo')\<close>
  throws when the map has no entry for the name of the check.
\<close>

definition mapOneRun ::
  "string \<Rightarrow> (string \<rightharpoonup> AttemptInfo) \<Rightarrow> CheckResultApi CheckRunApi \<Rightarrow> address
     \<Rightarrow> error + (CheckResult obj CheckRun obj \<times> address)" where
  "mapOneRun plugin attemptMap run a =
     (let runId = checkName run @ ''-'' @ string_of_int (change run) @ ''-''
                    @ string_of_int (patchset run) @ ''-''
                    @ string_of_number (CheckRunApi.attempt run)
      in case attemptMap (checkName run) of
           None \<Rightarrow> Inl (Error ''attemptInfo'')
         | Some attemptInfo \<Rightarrow>
             (let (results', a1) = mapResults runId 0 (resultsOrEmpty run) a
              in Inr (Obj a1
                        \<lparr>change = change run, patchset = patchset run,
                         CheckRunApi.attempt = CheckRunApi.attempt run,
                         CheckRunApi.externalId = CheckRunApi.externalId run,
                         checkName = checkName run, status = status run,
                         results = Some results',
                         CheckRun.pluginName = plugin, internalRunId = runId,
                         isLatestAttempt = (latestAttempt attemptInfo = CheckRunApi.attempt run),
                         CheckRun.isSingleAttempt = AttemptInfo.isSingleAttempt attemptInfo,
                         attemptDetails = attempts attemptInfo\<rparr>, Suc a1)))"

text \<open>\<open>runs.map\<close> with this callback: the first exception ends it.\<close>

fun mapRuns ::
  "string \<Rightarrow> (string \<rightharpoonup> AttemptInfo) \<Rightarrow> CheckResultApi CheckRunApi list \<Rightarrow> address
     \<Rightarrow> error + (CheckResult obj CheckRun obj list \<times> address)" where
  "mapRuns plugin attemptMap [] a = Inr ([], a)"
| "mapRuns plugin attemptMap (run # rest) a =
     (case mapOneRun plugin attemptMap run a of
        Inl e \<Rightarrow> Inl e
      | Inr (run', a1) \<Rightarrow>
          (case mapRuns plugin attemptMap rest a1 of
             Inl e \<Rightarrow> Inl e
           | Inr (rest', a2) \<Rightarrow> Inr (run' # rest', a2)))"

text \<open>The parameters \<open>actions\<close> and \<open>links\<close> have the default value \<open>[]\<close>.\<close>

definition updateStateSetResults ::
  "(CheckResultApi CheckRunApi list \<Rightarrow> error + (string \<rightharpoonup> AttemptInfo)) \<Rightarrow> string
     \<Rightarrow> CheckResultApi CheckRunApi list \<Rightarrow> Action list option \<Rightarrow> Link list option
     \<Rightarrow> ChecksPatchset \<Rightarrow> ChecksModel \<Rightarrow> error + ChecksModel" where
  "updateStateSetResults createAttemptMap plugin newRuns newActions newLinks which m =
     (case createAttemptMap newRuns of
        Inl e \<Rightarrow> Inl e
      | Inr created \<Rightarrow>
          (let attemptMap = map_option sortAttempts \<circ> created;
               a = nextAddr m;
               nextState = val (privateState m);
               pluginState = getPluginState nextState which
           in case mapRuns plugin attemptMap newRuns (a + 2) of
                Inl e \<Rightarrow> Inl e
              | Inr (runs', a') \<Rightarrow>
                  (let entry = (spread (pluginState plugin))
                         \<lparr>loading := Some False, firstTimeLoad := Some False,
                          errorMessage := None, loginCallback := None,
                          runs := Some (Obj (a + 1) runs'),
                          actions := Some (case newActions of None \<Rightarrow> [] | Some xs \<Rightarrow> xs),
                          links := Some (case newLinks of None \<Rightarrow> [] | Some xs \<Rightarrow> xs)\<rparr>
                   in Inr (privateStateNext
                        (Obj a (putPluginState nextState which (pluginState(plugin \<mapsto> entry))))
                        (m\<lparr>nextAddr := a'\<rparr>)))))"

subsection \<open>Updating one result\<close>

text \<open>
  \<open>xs.map(f)\<close> for a callback \<open>f\<close> that allocates objects and may set a flag of the
  enclosing method: the callback takes the next free address and returns its value,
  whether it set the flag, and the next free address.
\<close>

fun mapAlloc ::
  "('a \<Rightarrow> address \<Rightarrow> 'b \<times> bool \<times> address) \<Rightarrow> 'a list \<Rightarrow> address \<Rightarrow> 'b list \<times> bool \<times> address" where
  "mapAlloc f [] a = ([], False, a)"
| "mapAlloc f (x # xs) a =
     (let (y, flag, a1) = f x a;
          (ys, flags, a2) = mapAlloc f xs a1
      in (y # ys, flag \<or> flags, a2))"

text \<open>The condition under which the callback on the results replaces a result.\<close>

definition resultMatches :: "CheckResultApi \<Rightarrow> CheckResult \<Rightarrow> bool" where
  "resultMatches updatedResult result \<longleftrightarrow>
     truthyString (CheckResultApi.externalId result) \<and>
     CheckResultApi.externalId result = CheckResultApi.externalId updatedResult"

text \<open>The callback on the results; its flag sets both \<open>runUpdated\<close> and \<open>resultUpdated\<close>.\<close>

definition updateOneResult ::
  "CheckResultApi \<Rightarrow> CheckResult obj \<Rightarrow> address \<Rightarrow> CheckResult obj \<times> bool \<times> address" where
  "updateOneResult updatedResult result a =
     (if resultMatches updatedResult (val result)
      then (Obj a \<lparr>CheckResultApi.externalId = CheckResultApi.externalId updatedResult,
                   category = category updatedResult, summary = summary updatedResult,
                   CheckResultApi.message = CheckResultApi.message updatedResult,
                   internalResultId = internalResultId (val result)\<rparr>, True, Suc a)
      else (result, False, a))"

text \<open>The four comparisons that let the callback on the runs go on to the results.\<close>

definition runMatches :: "'r CheckRunApi \<Rightarrow> ('s, 'z) CheckRunApi_scheme \<Rightarrow> bool" where
  "runMatches updatedRun run \<longleftrightarrow>
     \<not> change run \<noteq> change updatedRun \<and>
     \<not> patchset run \<noteq> patchset updatedRun \<and>
     \<not> CheckRunApi.attempt run \<noteq> CheckRunApi.attempt updatedRun \<and>
     \<not> checkName run \<noteq> checkName updatedRun"

text \<open>The callback on the runs; its flag is \<open>runUpdated\<close>.\<close>

definition updateOneRun ::
  "CheckResultApi CheckRunApi \<Rightarrow> CheckResultApi \<Rightarrow> CheckResult obj CheckRun obj \<Rightarrow> address
     \<Rightarrow> CheckResult obj CheckRun obj \<times> bool \<times> address" where
  "updateOneRun updatedRun updatedResult run a =
     (if \<not> runMatches updatedRun (val run) then (run, False, a)
      else
        (let (results', resultUpdated, a1) =
               mapAlloc (updateOneResult updatedResult) (resultsOrEmpty (val run)) a
         in if resultUpdated then (Obj a1 ((val run)\<lparr>results := Some results'\<rparr>), True, Suc a1)
            else (run, False, a1)))"

text \<open>
  \<open>pluginState[pluginName].runs.map(...)\<close> throws a \<open>TypeError\<close> when the plugin has no
  entry, and when its entry has no property \<open>runs\<close>. Without an update the method
  returns before \<open>privateState$.next\<close>; the copies made until then are unreachable.
\<close>

definition updateStateUpdateResult ::
  "string \<Rightarrow> CheckResultApi CheckRunApi \<Rightarrow> CheckResultApi \<Rightarrow> ChecksPatchset \<Rightarrow> ChecksModel
     \<Rightarrow> error + ChecksModel" where
  "updateStateUpdateResult plugin updatedRun updatedResult which m =
     (let a = nextAddr m;
          nextState = val (privateState m);
          pluginState = getPluginState nextState which
      in case pluginState plugin of
           None \<Rightarrow> Inl TypeError
         | Some entry \<Rightarrow>
             (case runs entry of
                None \<Rightarrow> Inl TypeError
              | Some oldRuns \<Rightarrow>
                  (let (newRuns, runUpdated, a') =
                         mapAlloc (updateOneRun updatedRun updatedResult) (val oldRuns) (a + 2)
                   in if \<not> runUpdated then Inr (m\<lparr>nextAddr := a'\<rparr>)
                      else Inr (privateStateNext
                             (Obj a (putPluginState nextState which
                                (pluginState(plugin \<mapsto> entry\<lparr>runs := Some (Obj (a + 1) newRuns)\<rparr>))))
                             (m\<lparr>nextAddr := a'\<rparr>)))))"

definition updateResult ::
  "string \<Rightarrow> CheckResultApi CheckRunApi \<Rightarrow> CheckResultApi \<Rightarrow> ChecksModel \<Rightarrow> error + ChecksModel" where
  "updateResult plugin run result m =
     (case updateStateUpdateResult plugin run result LATEST m of
        Inl e \<Rightarrow> Inl e
      | Inr m1 \<Rightarrow> updateStateUpdateResult plugin run result SELECTED m1)"

subsection \<open>Reloading and triggering actions\<close>

text \<open>
  What a call does to the world outside the state store: the calls of an action's
  callback, the alerts and events fired on the document, the requests sent to a reload
  subject, and an exception that nothing catches.
\<close>

datatype Effect =
  CallbackInvoked int int "int option" "string option" "string option" string
  | FireAlert string
  | FireEvent string
  | ReloadNext string
  | Uncaught error

text \<open>\<open>this.reloadSubjects[pluginName].next()\<close>.\<close>

definition reload :: "string \<Rightarrow> ChecksModel \<Rightarrow> Effect list" where
  "reload plugin m =
     (case reloadSubjects m plugin of None \<Rightarrow> [Uncaught TypeError] | Some s \<Rightarrow> [ReloadNext plugin])"

definition reloadForCheck :: "string option \<Rightarrow> ChecksModel \<Rightarrow> Effect list" where
  "reloadForCheck check m =
     (case check of
        None \<Rightarrow> []
      | Some c \<Rightarrow>
          if c = [] then []
          else (case checkToPluginMap m c of
                  None \<Rightarrow> []
                | Some plugin \<Rightarrow> if plugin \<noteq> [] then reload plugin m else []))"

text \<open>
  \<open>triggerAction(action?, run?)\<close>. The subscription to the promise runs later, when the
  promise resolves: \<open>later\<close> is the model at that time. The effects are listed in the
  order in which they happen.
\<close>

definition triggerAction ::
  "Action option \<Rightarrow> 'r CheckRun option \<Rightarrow> ChecksModel \<Rightarrow> ChecksModel \<Rightarrow> Effect list" where
  "triggerAction action run m later =
     (case action of
        None \<Rightarrow> []
      | Some act \<Rightarrow>
          (case callback act of
             None \<Rightarrow> []
           | Some cb \<Rightarrow>
               if \<not> truthyNumber (changeNum m) then []
               else
                 (let patchSet = (case run of None \<Rightarrow> latestPatchNum m | Some r \<Rightarrow> Some (patchset r))
                  in if \<not> truthyNumber patchSet then []
                     else
                       (let runAttempt = (case run of None \<Rightarrow> None | Some r \<Rightarrow> CheckRunApi.attempt r);
                            runExternalId = (case run of None \<Rightarrow> None | Some r \<Rightarrow> CheckRunApi.externalId r);
                            runCheckName = (case run of None \<Rightarrow> None | Some r \<Rightarrow> Some (checkName r));
                            promise = cb (the (changeNum m)) (the patchSet) runAttempt runExternalId
                                        runCheckName (name act)
                        in CallbackInvoked (the (changeNum m)) (the patchSet) runAttempt runExternalId
                             runCheckName (name act) #
                           (case promise of
                              NoPromise \<Rightarrow> []
                            | Pending \<Rightarrow> [FireAlert (''Triggering action '' @ [CHR 0x27] @ name act @ [CHR 0x27] @ '' ...'')]
                            | Resolved result \<Rightarrow>
                                FireAlert (''Triggering action '' @ [CHR 0x27] @ name act @ [CHR 0x27] @ '' ...'') #
                                (if truthyString (ActionResult.errorMessage result)
                                      \<or> truthyString (ActionResult.message result)
                                 then [FireAlert
                                         (case ActionResult.message result of
                                            Some s \<Rightarrow> s
                                          | None \<Rightarrow>
                                              (case ActionResult.errorMessage result of
                                                 Some s \<Rightarrow> s
                                               | None \<Rightarrow> ''undefined''))]
                                 else [FireEvent ''hide-alert'']) @
                                (if shouldReload result = Some True
                                 then reloadForCheck runCheckName later else []))))))"

subsection \<open>Registering a provider\<close>

text \<open>
  \<open>initFetchingOfData\<close> subscribes to a pipeline that reads
  \<open>this.reloadSubjects[pluginName]\<close>; the pipeline itself, which fetches when one of
  its sources fires, is not part of the model. Its timer fires asynchronously, so
  subscribing changes nothing else.
\<close>

definition initFetchingOfData ::
  "string \<Rightarrow> ChecksApiConfig option \<Rightarrow> ChecksPatchset \<Rightarrow> ChecksModel \<Rightarrow> error + ChecksModel" where
  "initFetchingOfData plugin config which m =
     (let pollIntervalMs =
            (case (case config of None \<Rightarrow> None | Some c \<Rightarrow> fetchPollingIntervalSeconds c) of
               None \<Rightarrow> 60 | Some k \<Rightarrow> k) * 1000
      in case reloadSubjects m plugin of
           None \<Rightarrow> Inl TypeError
         | Some s \<Rightarrow>
             Inr (m\<lparr>subscriptions := subscriptions m @ [FetchPipeline plugin which pollIntervalMs]\<rparr>))"

definition registerWarning :: "string \<Rightarrow> string" where
  "registerWarning plugin =
     ''Plugin '' @ [CHR 0x27] @ plugin @ [CHR 0x27]
       @ '' was trying to register twice as a Checks UI provider. Ignored.''"

definition register ::
  "string \<Rightarrow> ChecksProvider \<Rightarrow> ChecksApiConfig option \<Rightarrow> ChecksModel \<Rightarrow> error + ChecksModel" where
  "register plugin provider config m =
     (if providers m plugin \<noteq> None
      then Inr (m\<lparr>console := console m @ [registerWarning plugin]\<rparr>)
      else
        (let m1 = m\<lparr>providers := (providers m)(plugin \<mapsto> provider)\<rparr>;
             m2 = m1\<lparr>reloadSubjects := (reloadSubjects m1)(plugin \<mapsto> BehaviorSubject)\<rparr>;
             m3 = updateStateSetProvider plugin LATEST m2;
             m4 = updateStateSetProvider plugin SELECTED m3
         in case initFetchingOfData plugin config LATEST m4 of
              Inl e \<Rightarrow> Inl e
            | Inr m5 \<Rightarrow> initFetchingOfData plugin config SELECTED m5))"

subsection \<open>Sequences of calls\<close>

text \<open>
  The calls of the state store that change the states of the providers. A call that
  throws leaves the model as it was.
\<close>

datatype Operation =
  SetProvider string ChecksPatchset
  | SetLoading string ChecksPatchset
  | SetError string string ChecksPatchset
  | SetNotLoggedIn string LoginCallback ChecksPatchset
  | SetResults "CheckResultApi CheckRunApi list \<Rightarrow> error + (string \<rightharpoonup> AttemptInfo)" string
      "CheckResultApi CheckRunApi list" "Action list option" "Link list option" ChecksPatchset
  | UpdateResult string "CheckResultApi CheckRunApi" CheckResultApi ChecksPatchset

fun call :: "Operation \<Rightarrow> ChecksModel \<Rightarrow> error + ChecksModel" where
  "call (SetProvider plugin which) m = Inr (updateStateSetProvider plugin which m)"
| "call (SetLoading plugin which) m = Inr (updateStateSetLoading plugin which m)"
| "call (SetError plugin msg which) m = Inr (updateStateSetError plugin msg which m)"
| "call (SetNotLoggedIn plugin cb which) m = Inr (updateStateSetNotLoggedIn plugin cb which m)"
| "call (SetResults createAttemptMap plugin newRuns newActions newLinks which) m =
     updateStateSetResults createAttemptMap plugin newRuns newActions newLinks which m"
| "call (UpdateResult plugin updatedRun updatedResult which) m =
     updateStateUpdateResult plugin updatedRun updatedResult which m"

fun calls :: "Operation list \<Rightarrow> ChecksModel \<Rightarrow> ChecksModel" where
  "calls [] m = m"
| "calls (operation # rest) m =
     calls rest (case call operation m of Inl e \<Rightarrow> m | Inr m' \<Rightarrow> m')"

subsection \<open>Properties of states, as the specification words them\<close>

text \<open>No entry of either context has both an error message and a login callback.\<close>

definition markersExclusive :: "ChecksModel \<Rightarrow> bool" where
  "markersExclusive m \<longleftrightarrow>
     (\<forall>which plugin entry.
        getPluginState (val (privateState m)) which plugin = Some entry \<longrightarrow>
        \<not> (errorMessage entry \<noteq> None \<and> loginCallback entry \<noteq> None))"

text \<open>
  A run is hit by an update when it agrees with the given run on change, patchset,
  attempt and check name, and one of its results has a non-empty \<open>externalId\<close> equal to
  the one of the given result.
\<close>

definition runHit ::
  "CheckResultApi CheckRunApi \<Rightarrow> CheckResultApi \<Rightarrow> CheckResult obj CheckRun \<Rightarrow> bool" where
  "runHit updatedRun updatedResult run \<longleftrightarrow>
     runMatches updatedRun run \<and>
     (\<exists>result \<in> set (resultsOrEmpty run). resultMatches updatedResult (val result))"

text \<open>
  How an update relates a result before to the result at the same index after: a result
  with the matching \<open>externalId\<close> is a new object (allocated at \<open>a\<close> or later) with the
  content of the given result and the old \<open>internalResultId\<close>; any other result is the
  same object.
\<close>

definition resultReplaced ::
  "CheckResultApi \<Rightarrow> address \<Rightarrow> CheckResult obj \<Rightarrow> CheckResult obj \<Rightarrow> bool" where
  "resultReplaced updatedResult a old new \<longleftrightarrow>
     (if resultMatches updatedResult (val old)
      then a \<le> addr new \<and>
           val new =
             \<lparr>CheckResultApi.externalId = CheckResultApi.externalId updatedResult,
              category = category updatedResult, summary = summary updatedResult,
              CheckResultApi.message = CheckResultApi.message updatedResult,
              internalResultId = internalResultId (val old)\<rparr>
      else new = old)"

text \<open>
  The same for a run: a run that is hit is a new object that differs from the old one in
  its results only, which are related as above; any other run is the same object.
\<close>

definition runReplaced ::
  "CheckResultApi CheckRunApi \<Rightarrow> CheckResultApi \<Rightarrow> address
     \<Rightarrow> CheckResult obj CheckRun obj \<Rightarrow> CheckResult obj CheckRun obj \<Rightarrow> bool" where
  "runReplaced updatedRun updatedResult a old new \<longleftrightarrow>
     (if runHit updatedRun updatedResult (val old)
      then a \<le> addr new \<and>
           (\<exists>results'. val new = (val old)\<lparr>results := Some results'\<rparr> \<and>
              list_all2 (resultReplaced updatedResult a) (resultsOrEmpty (val old)) results')
      else new = old)"

text \<open>
  The data of an entry without the addresses of its objects: a run with the contents of
  its results, and an entry as the pair of its own properties and the contents of its
  runs.
\<close>

definition runData :: "CheckResult obj CheckRun obj \<Rightarrow> CheckResult CheckRun" where
  "runData run =
     \<lparr>change = change (val run), patchset = patchset (val run),
      CheckRunApi.attempt = CheckRunApi.attempt (val run),
      CheckRunApi.externalId = CheckRunApi.externalId (val run),
      checkName = checkName (val run), status = status (val run),
      results = map_option (map val) (results (val run)),
      CheckRun.pluginName = CheckRun.pluginName (val run),
      internalRunId = internalRunId (val run),
      isLatestAttempt = isLatestAttempt (val run),
      CheckRun.isSingleAttempt = CheckRun.isSingleAttempt (val run),
      attemptDetails = attemptDetails (val run)\<rparr>"

definition providerData ::
  "ChecksProviderState \<Rightarrow> ChecksProviderState \<times> CheckResult CheckRun list option" where
  "providerData entry =
     (entry\<lparr>runs := None\<rparr>, map_option (\<lambda>array. map runData (val array)) (runs entry))"

text \<open>
  The addresses of the objects of a run and of an entry, and the states in which the
  snapshot and every object of an entry have an address below \<open>nextAddr\<close>.
\<close>

definition addressesOfRun :: "CheckResult obj CheckRun obj \<Rightarrow> address set" where
  "addressesOfRun run = insert (addr run) (addr ` set (resultsOrEmpty (val run)))"

definition addressesOfEntry :: "ChecksProviderState \<Rightarrow> address set" where
  "addressesOfEntry entry =
     (case runs entry of
        None \<Rightarrow> {}
      | Some array \<Rightarrow> insert (addr array) (\<Union> (addressesOfRun ` set (val array))))"

definition allocated :: "ChecksModel \<Rightarrow> bool" where
  "allocated m \<longleftrightarrow>
     addr (privateState m) < nextAddr m \<and>
     (\<forall>which plugin entry.
        getPluginState (val (privateState m)) which plugin = Some entry \<longrightarrow>
        (\<forall>x \<in> addressesOfEntry entry. x < nextAddr m))"

subsection \<open>Example data\<close>

text \<open>
  A state in which the plugin \<open>ci\<close> has one run of the check \<open>build\<close> with one result
  in the context of the latest patchset, and no run in the context of the selected
  patchset. The \<open>externalId\<close> of the result is a parameter. The addresses below
  \<open>nextAddr\<close> are in use.
\<close>

definition exampleResult :: "string option \<Rightarrow> CheckResult obj" where
  "exampleResult eid =
     Obj 2 \<lparr>CheckResultApi.externalId = eid, category = ERROR, summary = ''failed'',
            CheckResultApi.message = None, internalResultId = ''build-7-2-1-0''\<rparr>"

definition exampleRun :: "string option \<Rightarrow> CheckResult obj CheckRun obj" where
  "exampleRun eid =
     Obj 3 \<lparr>change = 7, patchset = 2, CheckRunApi.attempt = Some 1,
            CheckRunApi.externalId = None, checkName = ''build'', status = COMPLETED,
            results = Some [exampleResult eid], CheckRun.pluginName = ''ci'',
            internalRunId = ''build-7-2-1'', isLatestAttempt = True,
            CheckRun.isSingleAttempt = True,
            attemptDetails = [\<lparr>AttemptDetail.attempt = Some 1, icon = ''check''\<rparr>]\<rparr>"

definition exampleEntry :: "string option \<Rightarrow> ChecksProviderState" where
  "exampleEntry eid =
     \<lparr>pluginName = Some ''ci'', loading = Some False, firstTimeLoad = Some False,
      errorMessage = None, loginCallback = None, runs = Some (Obj 4 [exampleRun eid]),
      actions = Some [], links = Some []\<rparr>"

definition freshEntry :: ChecksProviderState where
  "freshEntry =
     \<lparr>pluginName = Some ''ci'', loading = Some False, firstTimeLoad = Some True,
      errorMessage = None, loginCallback = None, runs = Some (Obj 1 []),
      actions = Some [], links = Some []\<rparr>"

definition exampleModel :: "string option \<Rightarrow> ChecksModel" where
  "exampleModel eid =
     initialModel
       \<lparr>providers := [''ci'' \<mapsto> ChecksProvider 0],
        reloadSubjects := [''ci'' \<mapsto> BehaviorSubject],
        privateState :=
          Obj 5 \<lparr>patchsetNumberSelected = None,
                 pluginStateLatest = [''ci'' \<mapsto> exampleEntry eid],
                 pluginStateSelected = [''ci'' \<mapsto> freshEntry]\<rparr>,
        nextAddr := 6\<rparr>"

text \<open>A state in which the entry of \<open>ci\<close> for the latest patchset has a link.\<close>

definition exampleLink :: Link where
  "exampleLink = \<lparr>url = ''https://ci'', primary = True\<rparr>"

definition exampleLinkModel :: ChecksModel where
  "exampleLinkModel =
     initialModel
       \<lparr>privateState :=
          Obj 2 \<lparr>patchsetNumberSelected = None,
                 pluginStateLatest = [''ci'' \<mapsto> freshEntry\<lparr>links := Some [exampleLink]\<rparr>],
                 pluginStateSelected = Map.empty\<rparr>,
        nextAddr := 3\<rparr>"

text \<open>The arguments of an update of that result, and a run as a provider reports it.\<close>

definition exampleUpdatedRun :: "CheckResultApi CheckRunApi" where
  "exampleUpdatedRun =
     \<lparr>change = 7, patchset = 2, CheckRunApi.attempt = Some 1, CheckRunApi.externalId = None,
      checkName = ''build'', status = COMPLETED, results = None\<rparr>"

definition exampleUpdatedResult :: "string option \<Rightarrow> CheckResultApi" where
  "exampleUpdatedResult eid =
     \<lparr>CheckResultApi.externalId = eid, category = SUCCESS, summary = ''passed'',
      CheckResultApi.message = None\<rparr>"

definition exampleRunApi :: "CheckResultApi CheckRunApi" where
  "exampleRunApi =
     \<lparr>change = 7, patchset = 2, CheckRunApi.attempt = Some 1, CheckRunApi.externalId = None,
      checkName = ''build'', status = COMPLETED,
      results = Some [\<lparr>CheckResultApi.externalId = Some ''r1'', category = ERROR,
                       summary = ''failed'', CheckResultApi.message = None\<rparr>]\<rparr>"

text \<open>A stand-in for \<open>createAttemptMap\<close> on the runs of that one check.\<close>

definition exampleAttemptMap ::
  "CheckResultApi CheckRunApi list \<Rightarrow> error + (string \<rightharpoonup> AttemptInfo)" where
  "exampleAttemptMap rs =
     Inr [''build'' \<mapsto>
            \<lparr>latestAttempt = Some 1, AttemptInfo.isSingleAttempt = True,
             attempts = [\<lparr>AttemptDetail.attempt = Some 1, icon = ''check''\<rparr>]\<rparr>]"

section \<open>Properties\<close>

subsection \<open>Auxiliary facts\<close>

lemma getPluginState_put:
  "getPluginState (putPluginState state which pluginState) which' =
     (if which' = which then pluginState else getPluginState state which')"
  by (cases which; cases which') (simp_all add: getPluginState_def putPluginState_def)

lemma markersExclusive_next:
  assumes "markersExclusive m"
    and "\<not> (errorMessage entry \<noteq> None \<and> loginCallback entry \<noteq> None)"
  shows "markersExclusive
           (privateStateNext
              (Obj a (putPluginState (val (privateState m)) which
                 ((getPluginState (val (privateState m)) which)(plugin \<mapsto> entry))))
              (m\<lparr>nextAddr := k\<rparr>))"
  using assms
  by (auto simp: markersExclusive_def privateStateNext_def getPluginState_put split: if_splits)

lemma markersExclusive_initial: "markersExclusive initialModel"
  by (simp add: markersExclusive_def initialModel_def getPluginState_def)

lemma spread_markers:
  assumes "markersExclusive m"
  shows "\<not> (errorMessage (spread (getPluginState (val (privateState m)) which plugin)) \<noteq> None
          \<and> loginCallback (spread (getPluginState (val (privateState m)) which plugin)) \<noteq> None)"
  using assms by (auto simp: markersExclusive_def spread_def emptyObject_def split: option.splits)

lemma markersExclusive_call:
  assumes "markersExclusive m" and "call operation m = Inr m'"
  shows "markersExclusive m'"
proof (cases operation)
  case (SetProvider plugin which)
  with assms show ?thesis
    by (auto simp: updateStateSetProvider_def Let_def intro!: markersExclusive_next)
next
  case (SetLoading plugin which)
  with assms spread_markers [OF assms(1), of which plugin] show ?thesis
    by (auto simp: updateStateSetLoading_def Let_def intro!: markersExclusive_next)
next
  case (SetError plugin msg which)
  with assms show ?thesis
    by (auto simp: updateStateSetError_def Let_def intro!: markersExclusive_next)
next
  case (SetNotLoggedIn plugin cb which)
  with assms show ?thesis
    by (auto simp: updateStateSetNotLoggedIn_def Let_def intro!: markersExclusive_next)
next
  case (SetResults c plugin newRuns newActions newLinks which)
  with assms show ?thesis
    by (auto simp: updateStateSetResults_def Let_def split: sum.splits prod.splits
        intro!: markersExclusive_next)
next
  case (UpdateResult plugin updatedRun updatedResult which)
  with assms show ?thesis
    apply (auto simp: updateStateUpdateResult_def Let_def
        split: option.splits prod.splits if_splits)
     apply (simp add: markersExclusive_def)
    apply (rule markersExclusive_next)
     apply (auto simp: markersExclusive_def)
    done
qed

lemma markersExclusive_calls:
  "markersExclusive m \<Longrightarrow> markersExclusive (calls operations m)"
  by (induction operations arbitrary: m) (auto split: sum.splits dest: markersExclusive_call)

subsection \<open>Addresses in use\<close>

text \<open>
  In every state reached by calls from the initial state, the snapshot and the objects of
  all entries have addresses below \<open>nextAddr\<close>. So an object that a later call allocates
  (at \<open>nextAddr\<close> or above) is none of them.
\<close>

lemma mapResults_addresses:
  "mapResults runId i rs a = (ys, a') \<Longrightarrow> a \<le> a' \<and> (\<forall>y \<in> set ys. a \<le> addr y \<and> addr y < a')"
proof (induction rs arbitrary: i a ys a')
  case Nil
  then show ?case by simp
next
  case (Cons r rs)
  obtain zs b where rest: "mapResults runId (Suc i) rs (Suc a) = (zs, b)"
    by (cases "mapResults runId (Suc i) rs (Suc a)") auto
  from Cons.IH [OF rest] have ih: "Suc a \<le> b" "\<forall>y \<in> set zs. Suc a \<le> addr y \<and> addr y < b"
    by auto
  from Cons.prems rest have "a' = b" "\<exists>v. ys = Obj a v # zs"
    by (auto simp: Let_def)
  with ih show ?case by (fastforce simp: Suc_le_eq less_imp_le)
qed

lemma mapOneRun_addresses:
  assumes "mapOneRun plugin am r a = Inr (y, a')"
  shows "a \<le> a' \<and> (\<forall>x \<in> addressesOfRun y. a \<le> x \<and> x < a')"
proof -
  from assms obtain info where info: "am (checkName r) = Some info"
    by (auto simp: mapOneRun_def Let_def split: option.splits)
  obtain zs b where zs: "mapResults (checkName r @ ''-'' @ string_of_int (change r) @ ''-''
                    @ string_of_int (patchset r) @ ''-''
                    @ string_of_number (CheckRunApi.attempt r)) 0 (resultsOrEmpty r) a = (zs, b)"
    by (cases "mapResults (checkName r @ ''-'' @ string_of_int (change r) @ ''-''
                    @ string_of_int (patchset r) @ ''-''
                    @ string_of_number (CheckRunApi.attempt r)) 0 (resultsOrEmpty r) a") auto
  from mapResults_addresses [OF zs] have b: "a \<le> b" "\<forall>y \<in> set zs. a \<le> addr y \<and> addr y < b"
    by auto
  from assms info zs have "a' = Suc b" "addr y = b" "resultsOrEmpty (val y) = zs"
    by (auto simp: mapOneRun_def Let_def resultsOrEmpty_def)
  with b show ?thesis
    by (auto simp: addressesOfRun_def)
qed

lemma mapRuns_addresses:
  "mapRuns plugin am rs a = Inr (ys, a') \<Longrightarrow>
     a \<le> a' \<and> (\<forall>y \<in> set ys. \<forall>x \<in> addressesOfRun y. a \<le> x \<and> x < a')"
proof (induction rs arbitrary: a ys a')
  case Nil
  then show ?case by simp
next
  case (Cons r rs)
  from Cons.prems obtain y a1 rest where
    y: "mapOneRun plugin am r a = Inr (y, a1)" and
    rest: "mapRuns plugin am rs a1 = Inr (rest, a')" and
    ys: "ys = y # rest"
    by (auto split: sum.splits)
  from mapOneRun_addresses [OF y] have h: "a \<le> a1" "\<forall>x \<in> addressesOfRun y. a \<le> x \<and> x < a1"
    by auto
  from Cons.IH [OF rest] have ih: "a1 \<le> a'"
    "\<forall>y \<in> set rest. \<forall>x \<in> addressesOfRun y. a1 \<le> x \<and> x < a'"
    by auto
  from h ih ys show ?case by fastforce
qed

lemma updateOneResult_addresses:
  assumes "updateOneResult u r a = (y, f, a')" and "addr r < a"
  shows "a \<le> a' \<and> addr y < a'"
  using assms by (auto simp: updateOneResult_def split: if_splits)

lemma updateResults_addresses:
  "mapAlloc (updateOneResult u) rs a = (ys, f, a') \<Longrightarrow> \<forall>r \<in> set rs. addr r < a \<Longrightarrow>
     a \<le> a' \<and> (\<forall>y \<in> set ys. addr y < a')"
proof (induction rs arbitrary: a ys f a')
  case Nil
  then show ?case by simp
next
  case (Cons r rs)
  obtain y f1 a1 where one: "updateOneResult u r a = (y, f1, a1)"
    by (cases "updateOneResult u r a") auto
  obtain zs f2 a2 where rest: "mapAlloc (updateOneResult u) rs a1 = (zs, f2, a2)"
    by (cases "mapAlloc (updateOneResult u) rs a1") auto
  from Cons.prems(1) one rest have eqs: "ys = y # zs" "a' = a2"
    by auto
  from updateOneResult_addresses [OF one] Cons.prems(2) have h: "a \<le> a1" "addr y < a1"
    by auto
  with Cons.prems(2) have "\<forall>r \<in> set rs. addr r < a1" by auto
  from Cons.IH [OF rest this] have ih: "a1 \<le> a2" "\<forall>y \<in> set zs. addr y < a2"
    by auto
  from h ih eqs show ?case by auto
qed

lemma updateOneRun_addresses:
  assumes "updateOneRun ur u r a = (y, f, a')" and "\<forall>x \<in> addressesOfRun r. x < a"
  shows "a \<le> a' \<and> (\<forall>x \<in> addressesOfRun y. x < a')"
proof (cases "runMatches ur (val r)")
  case False
  with assms show ?thesis by (auto simp: updateOneRun_def)
next
  case True
  obtain zs g a1 where inner:
    "mapAlloc (updateOneResult u) (resultsOrEmpty (val r)) a = (zs, g, a1)"
    by (cases "mapAlloc (updateOneResult u) (resultsOrEmpty (val r)) a") auto
  from assms(2) have old: "\<forall>x \<in> set (resultsOrEmpty (val r)). addr x < a" "addr r < a"
    by (auto simp: addressesOfRun_def)
  from updateResults_addresses [OF inner old(1)] have b: "a \<le> a1" "\<forall>y \<in> set zs. addr y < a1"
    by auto
  show ?thesis
  proof (cases g)
    case True
    with assms(1) inner \<open>runMatches ur (val r)\<close>
    have "y = Obj a1 ((val r)\<lparr>results := Some zs\<rparr>)" "a' = Suc a1"
      by (auto simp: updateOneRun_def)
    with b show ?thesis
      by (auto simp: addressesOfRun_def resultsOrEmpty_def)
  next
    case False
    with assms(1) inner \<open>runMatches ur (val r)\<close>
    have "y = r" "a' = a1"
      by (auto simp: updateOneRun_def)
    with b assms(2) show ?thesis by auto
  qed
qed

lemma updateRuns_addresses:
  "mapAlloc (updateOneRun ur u) rs a = (ys, f, a') \<Longrightarrow>
     \<forall>r \<in> set rs. \<forall>x \<in> addressesOfRun r. x < a \<Longrightarrow>
     a \<le> a' \<and> (\<forall>y \<in> set ys. \<forall>x \<in> addressesOfRun y. x < a')"
proof (induction rs arbitrary: a ys f a')
  case Nil
  then show ?case by simp
next
  case (Cons r rs)
  obtain y f1 a1 where one: "updateOneRun ur u r a = (y, f1, a1)"
    by (cases "updateOneRun ur u r a") auto
  obtain zs f2 a2 where rest: "mapAlloc (updateOneRun ur u) rs a1 = (zs, f2, a2)"
    by (cases "mapAlloc (updateOneRun ur u) rs a1") auto
  from Cons.prems(1) one rest have eqs: "ys = y # zs" "a' = a2"
    by auto
  from Cons.prems(2) have hr: "\<forall>x \<in> addressesOfRun r. x < a" by simp
  from updateOneRun_addresses [OF one hr]
  have h: "a \<le> a1" "\<forall>x \<in> addressesOfRun y. x < a1"
    by auto
  with Cons.prems(2) have "\<forall>r \<in> set rs. \<forall>x \<in> addressesOfRun r. x < a1" by fastforce
  from Cons.IH [OF rest this] have ih: "a1 \<le> a2"
    "\<forall>y \<in> set zs. \<forall>x \<in> addressesOfRun y. x < a2"
    by auto
  from h ih eqs show ?case by fastforce
qed

lemma allocated_next:
  assumes "allocated m" and "nextAddr m \<le> k" and "a < k"
    and "\<forall>x \<in> addressesOfEntry entry. x < k"
  shows "allocated
           (privateStateNext
              (Obj a (putPluginState (val (privateState m)) which
                 ((getPluginState (val (privateState m)) which)(plugin \<mapsto> entry))))
              (m\<lparr>nextAddr := k\<rparr>))"
  unfolding allocated_def
proof (intro conjI allI impI)
  show "addr (privateState (privateStateNext
              (Obj a (putPluginState (val (privateState m)) which
                 ((getPluginState (val (privateState m)) which)(plugin \<mapsto> entry))))
              (m\<lparr>nextAddr := k\<rparr>))) < nextAddr (privateStateNext
              (Obj a (putPluginState (val (privateState m)) which
                 ((getPluginState (val (privateState m)) which)(plugin \<mapsto> entry))))
              (m\<lparr>nextAddr := k\<rparr>))"
    using assms(3) by (simp add: privateStateNext_def)
next
  fix which' plugin' entry'
  assume look: "getPluginState (val (privateState (privateStateNext
              (Obj a (putPluginState (val (privateState m)) which
                 ((getPluginState (val (privateState m)) which)(plugin \<mapsto> entry))))
              (m\<lparr>nextAddr := k\<rparr>)))) which' plugin' = Some entry'"
  then have "entry' = entry \<or> getPluginState (val (privateState m)) which' plugin' = Some entry'"
    by (auto simp: privateStateNext_def getPluginState_put split: if_splits)
  then have "\<forall>x \<in> addressesOfEntry entry'. x < k"
  proof
    assume "entry' = entry"
    with assms(4) show ?thesis by simp
  next
    assume "getPluginState (val (privateState m)) which' plugin' = Some entry'"
    with assms(1) have "\<forall>x \<in> addressesOfEntry entry'. x < nextAddr m"
      unfolding allocated_def by blast
    with assms(2) show ?thesis by fastforce
  qed
  then show "\<forall>x \<in> addressesOfEntry entry'. x < nextAddr (privateStateNext
              (Obj a (putPluginState (val (privateState m)) which
                 ((getPluginState (val (privateState m)) which)(plugin \<mapsto> entry))))
              (m\<lparr>nextAddr := k\<rparr>))"
    by (simp add: privateStateNext_def)
qed

lemma allocated_initial: "allocated initialModel"
  by (simp add: allocated_def initialModel_def getPluginState_def)

lemma allocated_spread:
  assumes "allocated m"
  shows "\<forall>x \<in> addressesOfEntry (spread (getPluginState (val (privateState m)) which plugin)).
           x < nextAddr m"
proof (cases "getPluginState (val (privateState m)) which plugin")
  case None
  then show ?thesis by (simp add: spread_def emptyObject_def addressesOfEntry_def)
next
  case (Some entry)
  with assms show ?thesis
    unfolding allocated_def by (simp add: spread_def)
qed

lemma allocated_call:
  assumes "allocated m" and "call operation m = Inr m'"
  shows "allocated m'"
proof (cases operation)
  case (SetProvider plugin which)
  with assms(2) have "m' = updateStateSetProvider plugin which m" by simp
  then show ?thesis
    unfolding updateStateSetProvider_def Let_def
    by (simp add: allocated_next [OF assms(1)] addressesOfEntry_def)
next
  case (SetLoading plugin which)
  with assms(2) have m': "m' = updateStateSetLoading plugin which m" by simp
  from allocated_spread [OF assms(1), of which plugin]
  have "\<forall>x \<in> addressesOfEntry
          ((spread (getPluginState (val (privateState m)) which plugin))\<lparr>loading := Some True\<rparr>).
          x < nextAddr m + 1"
    by (fastforce simp: addressesOfEntry_def)
  with m' show ?thesis
    unfolding updateStateSetLoading_def Let_def
    by (simp add: allocated_next [OF assms(1)])
next
  case (SetError plugin msg which)
  with assms(2) have "m' = updateStateSetError plugin msg which m" by simp
  then show ?thesis
    unfolding updateStateSetError_def Let_def
    by (simp add: allocated_next [OF assms(1)] addressesOfEntry_def)
next
  case (SetNotLoggedIn plugin cb which)
  with assms(2) have "m' = updateStateSetNotLoggedIn plugin cb which m" by simp
  then show ?thesis
    unfolding updateStateSetNotLoggedIn_def Let_def
    by (simp add: allocated_next [OF assms(1)] addressesOfEntry_def)
next
  case (SetResults c plugin newRuns newActions newLinks which)
  with assms(2) obtain created ys a' where
    ys: "mapRuns plugin (map_option sortAttempts \<circ> created) newRuns (nextAddr m + 2) = Inr (ys, a')"
    and m': "m' = privateStateNext
      (Obj (nextAddr m) (putPluginState (val (privateState m)) which
         ((getPluginState (val (privateState m)) which)(plugin \<mapsto>
            (spread (getPluginState (val (privateState m)) which plugin))
               \<lparr>loading := Some False, firstTimeLoad := Some False,
                errorMessage := None, loginCallback := None,
                runs := Some (Obj (nextAddr m + 1) ys),
                actions := Some (case newActions of None \<Rightarrow> [] | Some xs \<Rightarrow> xs),
                links := Some (case newLinks of None \<Rightarrow> [] | Some xs \<Rightarrow> xs)\<rparr>))))
      (m\<lparr>nextAddr := a'\<rparr>)"
    by (auto simp: updateStateSetResults_def Let_def split: sum.splits)
  from mapRuns_addresses [OF ys]
  have b: "nextAddr m + 2 \<le> a'" "\<forall>y \<in> set ys. \<forall>x \<in> addressesOfRun y. x < a'"
    by auto
  then have "\<forall>x \<in> addressesOfEntry ((spread (getPluginState (val (privateState m)) which plugin))
               \<lparr>loading := Some False, firstTimeLoad := Some False,
                errorMessage := None, loginCallback := None,
                runs := Some (Obj (nextAddr m + 1) ys),
                actions := Some (case newActions of None \<Rightarrow> [] | Some xs \<Rightarrow> xs),
                links := Some (case newLinks of None \<Rightarrow> [] | Some xs \<Rightarrow> xs)\<rparr>). x < a'"
    by (auto simp: addressesOfEntry_def)
  with b(1) show ?thesis
    unfolding m' by (intro allocated_next [OF assms(1)]) simp_all
next
  case (UpdateResult plugin ur u which)
  with assms(2) obtain entry oldRuns where
    entry: "getPluginState (val (privateState m)) which plugin = Some entry"
      "runs entry = Some oldRuns"
    by (auto simp: updateStateUpdateResult_def Let_def split: option.splits)
  obtain newRuns flag a' where inner:
    "mapAlloc (updateOneRun ur u) (val oldRuns) (nextAddr m + 2) = (newRuns, flag, a')"
    by (cases "mapAlloc (updateOneRun ur u) (val oldRuns) (nextAddr m + 2)") auto
  from assms(1) entry have old: "\<forall>x \<in> addressesOfEntry entry. x < nextAddr m"
    unfolding allocated_def by blast
  with entry(2) have "\<forall>r \<in> set (val oldRuns). \<forall>x \<in> addressesOfRun r. x < nextAddr m + 2"
    by (fastforce simp: addressesOfEntry_def)
  from updateRuns_addresses [OF inner this]
  have b: "nextAddr m + 2 \<le> a'" "\<forall>y \<in> set newRuns. \<forall>x \<in> addressesOfRun y. x < a'"
    by auto
  show ?thesis
  proof (cases flag)
    case False
    with assms(2) UpdateResult entry inner have "m' = m\<lparr>nextAddr := a'\<rparr>"
      by (simp add: updateStateUpdateResult_def Let_def)
    with assms(1) b(1) show ?thesis
      by (fastforce simp: allocated_def)
  next
    case True
    with assms(2) UpdateResult entry inner have m': "m' = privateStateNext
         (Obj (nextAddr m) (putPluginState (val (privateState m)) which
            ((getPluginState (val (privateState m)) which)
               (plugin \<mapsto> entry\<lparr>runs := Some (Obj (nextAddr m + 1) newRuns)\<rparr>))))
         (m\<lparr>nextAddr := a'\<rparr>)"
      by (simp add: updateStateUpdateResult_def Let_def)
    from b have "\<forall>x \<in> addressesOfEntry (entry\<lparr>runs := Some (Obj (nextAddr m + 1) newRuns)\<rparr>). x < a'"
      by (auto simp: addressesOfEntry_def)
    with b(1) show ?thesis
      unfolding m' by (intro allocated_next [OF assms(1)]) simp_all
  qed
qed

lemma allocated_calls: "allocated m \<Longrightarrow> allocated (calls operations m)"
  by (induction operations arbitrary: m) (auto split: sum.splits dest: allocated_call)

lemma allocated_fresh:
  assumes "allocated m"
    and "getPluginState (val (privateState m)) which plugin = Some entry"
    and "x \<in> addressesOfEntry entry" and "nextAddr m \<le> a"
  shows "a \<noteq> x"
  using assms by (fastforce simp: allocated_def)

subsection \<open>The markers of the two failure states\<close>

text \<open>
  Claim C1. In every state that a sequence of calls of \<open>updateStateSetProvider\<close>,
  \<open>updateStateSetLoading\<close>, \<open>updateStateSetError\<close>, \<open>updateStateSetNotLoggedIn\<close>,
  \<open>updateStateSetResults\<close> and \<open>updateStateUpdateResult\<close> reaches from the initial
  state, no entry of either context has both \<open>errorMessage\<close> and \<open>loginCallback\<close>.
  Right after \<open>updateStateSetError\<close> the entry of the plugin has no \<open>loginCallback\<close>, and
  right after \<open>updateStateSetNotLoggedIn\<close> it has no \<open>errorMessage\<close>.
\<close>

theorem markers_never_both_set:
  "(\<forall>which plugin entry.
      getPluginState (val (privateState (calls operations initialModel))) which plugin = Some entry
      \<longrightarrow> \<not> (errorMessage entry \<noteq> None \<and> loginCallback entry \<noteq> None))
   \<and> (\<exists>entry.
        getPluginState (val (privateState (updateStateSetError plugin' msg which' m))) which' plugin'
          = Some entry
        \<and> errorMessage entry = Some msg \<and> loginCallback entry = None)
   \<and> (\<exists>entry.
        getPluginState (val (privateState (updateStateSetNotLoggedIn plugin' cb which' m))) which' plugin'
          = Some entry
        \<and> loginCallback entry = Some cb \<and> errorMessage entry = None)"
proof (intro conjI)
  from markersExclusive_calls [OF markersExclusive_initial, of operations]
  show "\<forall>which plugin entry.
      getPluginState (val (privateState (calls operations initialModel))) which plugin = Some entry
      \<longrightarrow> \<not> (errorMessage entry \<noteq> None \<and> loginCallback entry \<noteq> None)"
    by (simp add: markersExclusive_def)
next
  show "\<exists>entry.
        getPluginState (val (privateState (updateStateSetError plugin' msg which' m))) which' plugin'
          = Some entry
        \<and> errorMessage entry = Some msg \<and> loginCallback entry = None"
    by (simp add: updateStateSetError_def privateStateNext_def getPluginState_put Let_def)
next
  show "\<exists>entry.
        getPluginState (val (privateState (updateStateSetNotLoggedIn plugin' cb which' m))) which' plugin'
          = Some entry
        \<and> loginCallback entry = Some cb \<and> errorMessage entry = None"
    by (simp add: updateStateSetNotLoggedIn_def privateStateNext_def getPluginState_put Let_def)
qed

theorem markers_never_both_set_witness:
  "\<exists>entry.
     getPluginState
       (val (privateState
          (calls [SetProvider ''ci'' LATEST, SetError ''ci'' ''quota exceeded'' LATEST,
                  SetNotLoggedIn ''ci'' (LoginCallback 9) LATEST] initialModel)))
       LATEST ''ci'' = Some entry
     \<and> loginCallback entry = Some (LoginCallback 9)
     \<and> \<not> (errorMessage entry \<noteq> None \<and> loginCallback entry \<noteq> None)"
proof -
  have "\<exists>entry.
     getPluginState
       (val (privateState
          (calls [SetProvider ''ci'' LATEST, SetError ''ci'' ''quota exceeded'' LATEST,
                  SetNotLoggedIn ''ci'' (LoginCallback 9) LATEST] initialModel)))
       LATEST ''ci'' = Some entry
     \<and> loginCallback entry = Some (LoginCallback 9)"
    by (simp add: updateStateSetNotLoggedIn_def privateStateNext_def getPluginState_put Let_def)
  then obtain entry where
    entry: "getPluginState
       (val (privateState
          (calls [SetProvider ''ci'' LATEST, SetError ''ci'' ''quota exceeded'' LATEST,
                  SetNotLoggedIn ''ci'' (LoginCallback 9) LATEST] initialModel)))
       LATEST ''ci'' = Some entry"
      "loginCallback entry = Some (LoginCallback 9)"
    by blast
  from markers_never_both_set
    [of "[SetProvider ''ci'' LATEST, SetError ''ci'' ''quota exceeded'' LATEST,
          SetNotLoggedIn ''ci'' (LoginCallback 9) LATEST]"] entry(1)
  have "\<not> (errorMessage entry \<noteq> None \<and> loginCallback entry \<noteq> None)"
    by blast
  with entry show ?thesis by blast
qed

subsection \<open>Selecting a patchset\<close>

text \<open>
  Claim C2. For every number \<open>n\<close> (or \<open>undefined\<close>) and every latest known patchset
  number, \<open>setPatchset(n)\<close> stores \<open>undefined\<close> in \<open>patchsetNumberSelected\<close> when \<open>n\<close>
  equals the latest number, and \<open>n\<close> itself when it differs; the new snapshot is
  published.
\<close>

theorem setPatchset_stores:
  "patchsetNumberSelected (val (privateState (setPatchset n m))) =
     (if n = latestPatchNum m then None else n)
   \<and> published (setPatchset n m) = published m @ [privateState (setPatchset n m)]"
  by (simp add: setPatchset_def updateStateSetPatchset_def privateStateNext_def Let_def)

theorem setPatchset_stores_witness:
  "patchsetNumberSelected
     (val (privateState (setPatchset (Some 5) (initialModel\<lparr>latestPatchNum := Some 5\<rparr>)))) = None
   \<and> patchsetNumberSelected
     (val (privateState (setPatchset (Some 3) (initialModel\<lparr>latestPatchNum := Some 5\<rparr>)))) = Some 3"
  using setPatchset_stores [of "Some 5" "initialModel\<lparr>latestPatchNum := Some 5\<rparr>"]
    setPatchset_stores [of "Some 3" "initialModel\<lparr>latestPatchNum := Some 5\<rparr>"]
  by simp

subsection \<open>Storing an error\<close>

text \<open>
  Claim C4. Whatever the entry of the plugin was before (also when there was none),
  after \<open>updateStateSetError(plugin, message)\<close> the entry has \<open>loading = false\<close>,
  \<open>firstTimeLoad = false\<close>, \<open>errorMessage = message\<close>, no \<open>loginCallback\<close>, an empty array
  of runs and an empty array of actions. Its \<open>links\<close> (and its \<open>pluginName\<close>) are the ones
  of the entry before the call; when there was no entry before, it has none.
\<close>

theorem updateStateSetError_entry:
  "\<exists>entry a.
     getPluginState (val (privateState (updateStateSetError plugin msg which m))) which plugin
       = Some entry
     \<and> loading entry = Some False
     \<and> firstTimeLoad entry = Some False
     \<and> errorMessage entry = Some msg
     \<and> loginCallback entry = None
     \<and> runs entry = Some (Obj a [])
     \<and> actions entry = Some []
     \<and> links entry =
         (case getPluginState (val (privateState m)) which plugin of
            None \<Rightarrow> None | Some before \<Rightarrow> links before)
     \<and> pluginName entry =
         (case getPluginState (val (privateState m)) which plugin of
            None \<Rightarrow> None | Some before \<Rightarrow> pluginName before)"
  by (cases "getPluginState (val (privateState m)) which plugin")
    (simp_all add: updateStateSetError_def privateStateNext_def getPluginState_put Let_def
      spread_def emptyObject_def)

text \<open>
  Scenario B on an entry that has a link: the error \<open>quota exceeded\<close> is stored and the
  link is still there.
\<close>

theorem updateStateSetError_entry_witness:
  "getPluginState (val (privateState exampleLinkModel)) LATEST ''ci''
     = Some (freshEntry\<lparr>links := Some [exampleLink]\<rparr>)
   \<and> (\<exists>entry a.
        getPluginState
          (val (privateState (updateStateSetError ''ci'' ''quota exceeded'' LATEST exampleLinkModel)))
          LATEST ''ci'' = Some entry
        \<and> loading entry = Some False
        \<and> firstTimeLoad entry = Some False
        \<and> errorMessage entry = Some ''quota exceeded''
        \<and> loginCallback entry = None
        \<and> runs entry = Some (Obj a [])
        \<and> actions entry = Some []
        \<and> links entry = Some [exampleLink]
        \<and> pluginName entry = Some ''ci'')"
proof -
  have before: "getPluginState (val (privateState exampleLinkModel)) LATEST ''ci''
     = Some (freshEntry\<lparr>links := Some [exampleLink]\<rparr>)"
    by (simp add: exampleLinkModel_def getPluginState_def)
  from updateStateSetError_entry [of "''ci''" "''quota exceeded''" LATEST exampleLinkModel]
  obtain entry a where
    "getPluginState
          (val (privateState (updateStateSetError ''ci'' ''quota exceeded'' LATEST exampleLinkModel)))
          LATEST ''ci'' = Some entry"
    "loading entry = Some False" "firstTimeLoad entry = Some False"
    "errorMessage entry = Some ''quota exceeded''" "loginCallback entry = None"
    "runs entry = Some (Obj a [])" "actions entry = Some []"
    "links entry =
       (case getPluginState (val (privateState exampleLinkModel)) LATEST ''ci'' of
          None \<Rightarrow> None | Some before \<Rightarrow> links before)"
    "pluginName entry =
       (case getPluginState (val (privateState exampleLinkModel)) LATEST ''ci'' of
          None \<Rightarrow> None | Some before \<Rightarrow> pluginName before)"
    by blast
  with before have
    "getPluginState
          (val (privateState (updateStateSetError ''ci'' ''quota exceeded'' LATEST exampleLinkModel)))
          LATEST ''ci'' = Some entry
        \<and> loading entry = Some False
        \<and> firstTimeLoad entry = Some False
        \<and> errorMessage entry = Some ''quota exceeded''
        \<and> loginCallback entry = None
        \<and> runs entry = Some (Obj a [])
        \<and> actions entry = Some []
        \<and> links entry = Some [exampleLink]
        \<and> pluginName entry = Some ''ci''"
    by (simp add: freshEntry_def)
  with before show ?thesis by blast
qed

subsection \<open>The view of the selected patchset\<close>

text \<open>
  Claim C8, as the code has it. The projection of \<open>checksSelected$\<close>, applied to every
  snapshot, is \<open>pluginStateSelected\<close> when \<open>patchsetNumberSelected\<close> is defined and not
  \<open>0\<close>, and \<open>pluginStateLatest\<close> when it is \<open>undefined\<close> or \<open>0\<close>: the condition of the
  selector is the truthiness of the number.
\<close>

theorem checksSelected_view:
  "checksSelected state =
     (if patchsetNumberSelected state \<noteq> None \<and> patchsetNumberSelected state \<noteq> Some 0
      then pluginStateSelected state else pluginStateLatest state)"
  by (simp add: checksSelected_def truthyNumber_def split: option.splits)

text \<open>
  With the defined patchset number \<open>0\<close> the view is the state of the latest patchset,
  not the one of the selected patchset.
\<close>

theorem checksSelected_zero_counterexample:
  "patchsetNumberSelected
     \<lparr>patchsetNumberSelected = Some 0, pluginStateLatest = Map.empty,
      pluginStateSelected = [''ci'' \<mapsto> emptyObject]\<rparr> \<noteq> None
   \<and> checksSelected
     \<lparr>patchsetNumberSelected = Some 0, pluginStateLatest = Map.empty,
      pluginStateSelected = [''ci'' \<mapsto> emptyObject]\<rparr>
     \<noteq> pluginStateSelected
     \<lparr>patchsetNumberSelected = Some 0, pluginStateLatest = Map.empty,
      pluginStateSelected = [''ci'' \<mapsto> emptyObject]\<rparr>"
proof -
  have "(Map.empty :: string \<rightharpoonup> ChecksProviderState) ''ci'' \<noteq> [''ci'' \<mapsto> emptyObject] ''ci''"
    by simp
  then have "(Map.empty :: string \<rightharpoonup> ChecksProviderState) \<noteq> [''ci'' \<mapsto> emptyObject]"
    by metis
  then show ?thesis
    unfolding checksSelected_def truthyNumber_def by simp
qed

subsection \<open>Triggering an action\<close>

lemma reloadForCheck_no_invocation:
  "CallbackInvoked c p a e n s \<notin> set (reloadForCheck check later)"
  by (auto simp: reloadForCheck_def reload_def split: option.splits)

lemma triggerAction_shape:
  "triggerAction action run m later = []
   \<or> (\<exists>act cb rest.
        action = Some act \<and> callback act = Some cb \<and> truthyNumber (changeNum m)
        \<and> truthyNumber (case run of None \<Rightarrow> latestPatchNum m | Some r \<Rightarrow> Some (patchset r))
        \<and> triggerAction action run m later =
            CallbackInvoked (the (changeNum m))
              (the (case run of None \<Rightarrow> latestPatchNum m | Some r \<Rightarrow> Some (patchset r)))
              (case run of None \<Rightarrow> None | Some r \<Rightarrow> CheckRunApi.attempt r)
              (case run of None \<Rightarrow> None | Some r \<Rightarrow> CheckRunApi.externalId r)
              (case run of None \<Rightarrow> None | Some r \<Rightarrow> Some (checkName r))
              (name act) # rest
        \<and> (\<forall>c p a e n s. CallbackInvoked c p a e n s \<notin> set rest))"
proof (cases action)
  case None
  then show ?thesis by (simp add: triggerAction_def)
next
  case (Some act)
  show ?thesis
  proof (cases "callback act")
    case None
    with Some show ?thesis by (simp add: triggerAction_def)
  next
    case (Some cb)
    show ?thesis
    proof (cases "truthyNumber (changeNum m) \<and>
        truthyNumber (case run of None \<Rightarrow> latestPatchNum m | Some r \<Rightarrow> Some (patchset r))")
      case False
      with Some \<open>action = Some act\<close> show ?thesis
        by (auto simp: triggerAction_def Let_def)
    next
      case True
      with Some \<open>action = Some act\<close> reloadForCheck_no_invocation show ?thesis
        by (cases "cb (the (changeNum m))
              (the (case run of None \<Rightarrow> latestPatchNum m | Some r \<Rightarrow> Some (patchset r)))
              (case run of None \<Rightarrow> None | Some r \<Rightarrow> CheckRunApi.attempt r)
              (case run of None \<Rightarrow> None | Some r \<Rightarrow> CheckRunApi.externalId r)
              (case run of None \<Rightarrow> None | Some r \<Rightarrow> Some (checkName r))
              (name act)")
          (simp_all add: triggerAction_def Let_def)
    qed
  qed
qed

text \<open>
  Claim C9. When the action has no callback, or no current change number is known, or
  no patchset number can be resolved (the run's own, else the latest), \<open>triggerAction\<close>
  does nothing: the callback is not invoked and no alert is fired. And whenever the
  callback is invoked, there is a callback, the current change number is known and is
  the first argument, and the patchset number is resolved and is the second argument.
\<close>

theorem triggerAction_ignored:
  "((case action of None \<Rightarrow> True | Some act \<Rightarrow> callback act = None)
      \<or> changeNum m = None
      \<or> (case run of None \<Rightarrow> latestPatchNum m | Some r \<Rightarrow> Some (patchset r)) = None
    \<longrightarrow> triggerAction action run m later = [])
   \<and> (\<forall>c p a e n s.
        CallbackInvoked c p a e n s \<in> set (triggerAction action run m later) \<longrightarrow>
        (\<exists>act cb. action = Some act \<and> callback act = Some cb)
        \<and> changeNum m = Some c
        \<and> (case run of None \<Rightarrow> latestPatchNum m | Some r \<Rightarrow> Some (patchset r)) = Some p)"
proof (intro conjI allI impI)
  assume "(case action of None \<Rightarrow> True | Some act \<Rightarrow> callback act = None)
      \<or> changeNum m = None
      \<or> (case run of None \<Rightarrow> latestPatchNum m | Some r \<Rightarrow> Some (patchset r)) = None"
  then show "triggerAction action run m later = []"
    by (auto simp: triggerAction_def truthyNumber_def Let_def split: option.splits)
next
  fix c p a e n s
  assume inv: "CallbackInvoked c p a e n s \<in> set (triggerAction action run m later)"
  with triggerAction_shape [of action run m later] obtain act cb where
    act: "action = Some act" "callback act = Some cb" and
    t: "truthyNumber (changeNum m)"
      "truthyNumber (case run of None \<Rightarrow> latestPatchNum m | Some r \<Rightarrow> Some (patchset r))" and
    c: "c = the (changeNum m)" and
    p: "p = the (case run of None \<Rightarrow> latestPatchNum m | Some r \<Rightarrow> Some (patchset r))"
    by auto
  from act show "\<exists>act cb. action = Some act \<and> callback act = Some cb" by blast
  from t(1) c show "changeNum m = Some c"
    by (auto simp: truthyNumber_def split: option.splits)
  from t(2) p show "(case run of None \<Rightarrow> latestPatchNum m | Some r \<Rightarrow> Some (patchset r)) = Some p"
    by (cases "case run of None \<Rightarrow> latestPatchNum m | Some r \<Rightarrow> Some (patchset r)")
      (simp_all add: truthyNumber_def)
qed

theorem triggerAction_ignored_witness:
  "changeNum initialModel = None
   \<and> triggerAction
        (Some \<lparr>name = ''rerun'', callback = Some (\<lambda>c p a e n s. Pending)\<rparr>)
        (None :: unit CheckRun option) initialModel initialModel = []"
proof -
  have h: "changeNum initialModel = None" by (simp add: initialModel_def)
  with triggerAction_ignored
      [of "Some \<lparr>name = ''rerun'', callback = Some (\<lambda>c p a e n s. Pending)\<rparr>"
        initialModel "None :: unit CheckRun option" initialModel]
  have "triggerAction
        (Some \<lparr>name = ''rerun'', callback = Some (\<lambda>c p a e n s. Pending)\<rparr>)
        (None :: unit CheckRun option) initialModel initialModel = []"
    by blast
  with h show ?thesis by simp
qed

text \<open>With a change number and a latest patchset the same call invokes the callback.\<close>

lemma triggerAction_invoked_example:
  "triggerAction
     (Some \<lparr>name = ''rerun'', callback = Some (\<lambda>c p a e n s. Pending)\<rparr>)
     (None :: unit CheckRun option)
     (initialModel\<lparr>changeNum := Some 7, latestPatchNum := Some 2\<rparr>) initialModel
   = [CallbackInvoked 7 2 None None None ''rerun'',
      FireAlert ''Triggering action 'rerun' ...'']"
  by (simp add: triggerAction_def truthyNumber_def initialModel_def)

subsection \<open>Registering twice\<close>

text \<open>
  Claim C10. For a plugin name that is registered already, \<open>register\<close> writes a warning
  to the console and changes nothing else: the providers, the reload subjects, the
  snapshot, the list of published snapshots and the subscriptions (the fetch pipelines)
  stay as they are. A plugin name is registered after any call of \<open>register\<close> for it that
  returns.
\<close>

theorem register_twice:
  "(providers m plugin \<noteq> None \<longrightarrow>
      register plugin provider config m
        = Inr (m\<lparr>console := console m @ [registerWarning plugin]\<rparr>))
   \<and> (\<forall>m1. register plugin provider config m = Inr m1 \<longrightarrow> providers m1 plugin \<noteq> None)"
  by (auto simp: register_def initFetchingOfData_def updateStateSetProvider_def
      privateStateNext_def Let_def split: option.splits if_splits)

theorem register_twice_witness:
  "\<exists>m1. register ''ci'' (ChecksProvider 0) None initialModel = Inr m1
        \<and> providers m1 ''ci'' \<noteq> None
        \<and> register ''ci'' (ChecksProvider 1) None m1
            = Inr (m1\<lparr>console := console m1 @ [registerWarning ''ci'']\<rparr>)"
proof -
  have "\<exists>m1. register ''ci'' (ChecksProvider 0) None initialModel = Inr m1"
    by (simp add: register_def initFetchingOfData_def updateStateSetProvider_def
        privateStateNext_def initialModel_def Let_def)
  then obtain m1 where m1: "register ''ci'' (ChecksProvider 0) None initialModel = Inr m1"
    by blast
  with register_twice [of initialModel "''ci''" "ChecksProvider 0" None]
  have reg: "providers m1 ''ci'' \<noteq> None"
    by blast
  with register_twice [of m1 "''ci''" "ChecksProvider 1" None]
  have "register ''ci'' (ChecksProvider 1) None m1
            = Inr (m1\<lparr>console := console m1 @ [registerWarning ''ci'']\<rparr>)"
    by blast
  with m1 reg show ?thesis by blast
qed

subsection \<open>Updating one result: what the two maps do\<close>

lemma resultReplaced_mono:
  "a \<le> b \<Longrightarrow> resultReplaced u b old new \<Longrightarrow> resultReplaced u a old new"
  by (auto simp: resultReplaced_def split: if_splits)

lemma updateResults_replaced:
  "mapAlloc (updateOneResult u) rs a = (rs', flag, a') \<Longrightarrow>
     list_all2 (resultReplaced u a) rs rs' \<and> a \<le> a'
     \<and> (flag \<longleftrightarrow> (\<exists>r \<in> set rs. resultMatches u (val r)))"
proof (induction rs arbitrary: a rs' flag a')
  case Nil
  then show ?case by simp
next
  case (Cons r rs)
  obtain y f1 a1 where one: "updateOneResult u r a = (y, f1, a1)"
    by (cases "updateOneResult u r a") auto
  obtain ys f2 a2 where rest: "mapAlloc (updateOneResult u) rs a1 = (ys, f2, a2)"
    by (cases "mapAlloc (updateOneResult u) rs a1") auto
  from Cons.prems one rest have eqs: "rs' = y # ys" "flag = (f1 \<or> f2)" "a' = a2"
    by auto
  from Cons.IH [OF rest]
  have ih: "list_all2 (resultReplaced u a1) rs ys" "a1 \<le> a2"
    "f2 \<longleftrightarrow> (\<exists>r \<in> set rs. resultMatches u (val r))"
    by auto
  from one have hd: "resultReplaced u a r y" "a \<le> a1" "f1 \<longleftrightarrow> resultMatches u (val r)"
    by (auto simp: updateOneResult_def resultReplaced_def split: if_splits)
  from ih(1) hd(2) have "list_all2 (resultReplaced u a) rs ys"
    by (auto elim!: list_all2_mono intro: resultReplaced_mono)
  with hd ih eqs show ?case by auto
qed

lemma runReplaced_mono:
  "a \<le> b \<Longrightarrow> runReplaced ur u b old new \<Longrightarrow> runReplaced ur u a old new"
  by (auto simp: runReplaced_def split: if_splits
      elim!: list_all2_mono intro: resultReplaced_mono)

lemma updateOneRun_replaced:
  assumes "updateOneRun ur u run a = (run', flag, a')"
  shows "runReplaced ur u a run run' \<and> a \<le> a' \<and> (flag \<longleftrightarrow> runHit ur u (val run))"
proof (cases "runMatches ur (val run)")
  case False
  with assms show ?thesis
    by (auto simp: updateOneRun_def runReplaced_def runHit_def)
next
  case True
  obtain rs' f a1 where inner:
    "mapAlloc (updateOneResult u) (resultsOrEmpty (val run)) a = (rs', f, a1)"
    by (cases "mapAlloc (updateOneResult u) (resultsOrEmpty (val run)) a") auto
  from updateResults_replaced [OF inner]
  have rel: "list_all2 (resultReplaced u a) (resultsOrEmpty (val run)) rs'" and le: "a \<le> a1"
    and f: "f \<longleftrightarrow> (\<exists>r \<in> set (resultsOrEmpty (val run)). resultMatches u (val r))"
    by auto
  from f True have hit: "f \<longleftrightarrow> runHit ur u (val run)"
    by (simp add: runHit_def)
  show ?thesis
  proof (cases f)
    case True
    with assms inner \<open>runMatches ur (val run)\<close>
    have "run' = Obj a1 ((val run)\<lparr>results := Some rs'\<rparr>)" "flag" "a' = Suc a1"
      by (auto simp: updateOneRun_def)
    with rel le hit True show ?thesis
      by (auto simp: runReplaced_def)
  next
    case False
    with assms inner \<open>runMatches ur (val run)\<close>
    have "run' = run" "\<not> flag" "a' = a1"
      by (auto simp: updateOneRun_def)
    with le hit False show ?thesis
      by (auto simp: runReplaced_def)
  qed
qed

lemma updateRuns_replaced:
  "mapAlloc (updateOneRun ur u) rs a = (rs', flag, a') \<Longrightarrow>
     list_all2 (runReplaced ur u a) rs rs' \<and> a \<le> a'
     \<and> (flag \<longleftrightarrow> (\<exists>r \<in> set rs. runHit ur u (val r)))"
proof (induction rs arbitrary: a rs' flag a')
  case Nil
  then show ?case by simp
next
  case (Cons r rs)
  obtain y f1 a1 where one: "updateOneRun ur u r a = (y, f1, a1)"
    by (cases "updateOneRun ur u r a") auto
  obtain ys f2 a2 where rest: "mapAlloc (updateOneRun ur u) rs a1 = (ys, f2, a2)"
    by (cases "mapAlloc (updateOneRun ur u) rs a1") auto
  from Cons.prems one rest have eqs: "rs' = y # ys" "flag = (f1 \<or> f2)" "a' = a2"
    by auto
  from Cons.IH [OF rest]
  have ih: "list_all2 (runReplaced ur u a1) rs ys" "a1 \<le> a2"
    "f2 \<longleftrightarrow> (\<exists>r \<in> set rs. runHit ur u (val r))"
    by auto
  from updateOneRun_replaced [OF one]
  have hd: "runReplaced ur u a r y" "a \<le> a1" "f1 \<longleftrightarrow> runHit ur u (val r)"
    by auto
  from ih(1) hd(2) have "list_all2 (runReplaced ur u a) rs ys"
    by (auto elim!: list_all2_mono intro: runReplaced_mono)
  with hd ih eqs show ?case by auto
qed

lemma no_hit_same:
  assumes "list_all2 (runReplaced ur u a) rs rs'"
    and "\<not> (\<exists>r \<in> set rs. runHit ur u (val r))"
  shows "rs' = rs"
  using assms by (induction rule: list_all2_induct) (auto simp: runReplaced_def)

text \<open>
  What one call does in its context: with a hit it publishes a snapshot in which the
  entry of the plugin has a new array of runs; without a hit it returns the model as it
  was, up to the addresses used for the copies.
\<close>

lemma updateStateUpdateResult_cases:
  assumes "getPluginState (val (privateState m)) which plugin = Some entry"
    and "runs entry = Some oldRuns"
  shows "\<exists>newRuns a'.
     list_all2 (runReplaced ur u (nextAddr m)) (val oldRuns) newRuns \<and> nextAddr m \<le> a' \<and>
     updateStateUpdateResult plugin ur u which m =
       (if \<exists>r \<in> set (val oldRuns). runHit ur u (val r)
        then Inr (privateStateNext
              (Obj (nextAddr m) (putPluginState (val (privateState m)) which
                 ((getPluginState (val (privateState m)) which)
                    (plugin \<mapsto> entry\<lparr>runs := Some (Obj (nextAddr m + 1) newRuns)\<rparr>))))
              (m\<lparr>nextAddr := a'\<rparr>))
        else Inr (m\<lparr>nextAddr := a'\<rparr>))"
proof -
  obtain newRuns flag a' where inner:
    "mapAlloc (updateOneRun ur u) (val oldRuns) (nextAddr m + 2) = (newRuns, flag, a')"
    by (cases "mapAlloc (updateOneRun ur u) (val oldRuns) (nextAddr m + 2)") auto
  from updateRuns_replaced [OF inner]
  have rel: "list_all2 (runReplaced ur u (nextAddr m + 2)) (val oldRuns) newRuns"
    and le: "nextAddr m + 2 \<le> a'"
    and flag: "flag \<longleftrightarrow> (\<exists>r \<in> set (val oldRuns). runHit ur u (val r))"
    by auto
  have "runReplaced ur u (nextAddr m) x y" if "runReplaced ur u (nextAddr m + 2) x y" for x y
    using that by (rule runReplaced_mono [rotated]) simp
  with rel have rel': "list_all2 (runReplaced ur u (nextAddr m)) (val oldRuns) newRuns"
    by (auto elim!: list_all2_mono)
  from assms inner flag
  have "updateStateUpdateResult plugin ur u which m =
       (if \<exists>r \<in> set (val oldRuns). runHit ur u (val r)
        then Inr (privateStateNext
              (Obj (nextAddr m) (putPluginState (val (privateState m)) which
                 ((getPluginState (val (privateState m)) which)
                    (plugin \<mapsto> entry\<lparr>runs := Some (Obj (nextAddr m + 1) newRuns)\<rparr>))))
              (m\<lparr>nextAddr := a'\<rparr>))
        else Inr (m\<lparr>nextAddr := a'\<rparr>))"
    by (simp add: updateStateUpdateResult_def Let_def)
  with rel' le show ?thesis by (intro exI [of _ newRuns] exI [of _ a']) simp
qed

subsection \<open>An update without a match\<close>

text \<open>
  Claim C3. When the plugin has an entry with runs in the context, and no run of it both
  agrees with the given run on change, patchset, attempt and check name and has a result
  whose non-empty \<open>externalId\<close> is the one of the given result,
  \<open>updateStateUpdateResult\<close> returns without publishing: the snapshot is the same object
  as before (and with it the array of runs of the provider), no snapshot is added to
  the published ones, and no other field of the model changes. Only the counter of
  addresses moves, for the copies the method made and dropped. The hypothesis holds in
  particular when no result of such a run agrees with the given result on \<open>externalId\<close>
  at all.
\<close>

theorem updateStateUpdateResult_no_match:
  assumes "getPluginState (val (privateState m)) which plugin = Some entry"
    and "runs entry = Some oldRuns"
    and "\<forall>run \<in> set (val oldRuns). \<not> runHit updatedRun updatedResult (val run)"
  shows "\<exists>m'. updateStateUpdateResult plugin updatedRun updatedResult which m = Inr m'
           \<and> privateState m' = privateState m
           \<and> published m' = published m
           \<and> m' = m\<lparr>nextAddr := nextAddr m'\<rparr>"
proof -
  from updateStateUpdateResult_cases [OF assms(1,2), of updatedRun updatedResult] assms(3)
  obtain a' where "updateStateUpdateResult plugin updatedRun updatedResult which m
      = Inr (m\<lparr>nextAddr := a'\<rparr>)"
    by auto
  then show ?thesis by simp
qed

theorem updateStateUpdateResult_no_match_witness:
  "getPluginState (val (privateState (exampleModel (Some ''r1'')))) LATEST ''ci''
     = Some (exampleEntry (Some ''r1''))
   \<and> runs (exampleEntry (Some ''r1'')) = Some (Obj 4 [exampleRun (Some ''r1'')])
   \<and> \<not> runHit exampleUpdatedRun (exampleUpdatedResult (Some ''r2'')) (val (exampleRun (Some ''r1'')))
   \<and> (\<exists>m'. updateStateUpdateResult ''ci'' exampleUpdatedRun (exampleUpdatedResult (Some ''r2''))
              LATEST (exampleModel (Some ''r1'')) = Inr m'
           \<and> privateState m' = privateState (exampleModel (Some ''r1''))
           \<and> published m' = published (exampleModel (Some ''r1''))
           \<and> m' = (exampleModel (Some ''r1''))\<lparr>nextAddr := nextAddr m'\<rparr>)"
proof -
  have h1: "getPluginState (val (privateState (exampleModel (Some ''r1'')))) LATEST ''ci''
     = Some (exampleEntry (Some ''r1''))"
    by (simp add: exampleModel_def getPluginState_def)
  have h2: "runs (exampleEntry (Some ''r1'')) = Some (Obj 4 [exampleRun (Some ''r1'')])"
    by (simp add: exampleEntry_def)
  have h3: "\<not> runHit exampleUpdatedRun (exampleUpdatedResult (Some ''r2'')) (val (exampleRun (Some ''r1'')))"
    by (simp add: runHit_def resultMatches_def resultsOrEmpty_def exampleRun_def
        exampleResult_def exampleUpdatedResult_def)
  from h3 have h3': "\<forall>run \<in> set (val (Obj 4 [exampleRun (Some ''r1'')])).
      \<not> runHit exampleUpdatedRun (exampleUpdatedResult (Some ''r2'')) (val run)"
    by simp
  from updateStateUpdateResult_no_match [OF h1 h2 h3'] h1 h2 h3 show ?thesis
    by blast
qed

subsection \<open>An update with a match\<close>

text \<open>
  Claim C6, as the code has it. Let the plugin have an entry with runs in both contexts.
  Then \<open>updateResult\<close> returns, and in each context on its own: every result whose
  \<open>externalId\<close> is a non-empty string equal to the one of the given result, in a run that
  agrees with the given run on change, patchset, attempt and check name, is replaced by
  a new object that has the content of the given result and the \<open>internalResultId\<close> of
  the old one; every run with such a result is replaced by a new object that differs from
  the old run in its results only; every other run and every other result is the same
  object as before. The array of runs is a new object when a run was replaced, and the
  same object otherwise. The other entries of both contexts and the selected patchset
  number stay as they are.
\<close>

theorem updateResult_replaces:
  assumes "pluginStateLatest (val (privateState m)) plugin = Some entryL"
    and "runs entryL = Some runsL"
    and "pluginStateSelected (val (privateState m)) plugin = Some entryS"
    and "runs entryS = Some runsS"
  shows "\<exists>m' newL newS.
     updateResult plugin updatedRun updatedResult m = Inr m'
     \<and> pluginStateLatest (val (privateState m'))
         = (pluginStateLatest (val (privateState m)))(plugin \<mapsto> entryL\<lparr>runs := Some newL\<rparr>)
     \<and> pluginStateSelected (val (privateState m'))
         = (pluginStateSelected (val (privateState m)))(plugin \<mapsto> entryS\<lparr>runs := Some newS\<rparr>)
     \<and> list_all2 (runReplaced updatedRun updatedResult (nextAddr m)) (val runsL) (val newL)
     \<and> list_all2 (runReplaced updatedRun updatedResult (nextAddr m)) (val runsS) (val newS)
     \<and> (if \<exists>r \<in> set (val runsL). runHit updatedRun updatedResult (val r)
         then nextAddr m \<le> addr newL else newL = runsL)
     \<and> (if \<exists>r \<in> set (val runsS). runHit updatedRun updatedResult (val r)
         then nextAddr m \<le> addr newS else newS = runsS)
     \<and> patchsetNumberSelected (val (privateState m')) = patchsetNumberSelected (val (privateState m))"
proof -
  have L: "getPluginState (val (privateState m)) LATEST plugin = Some entryL"
    using assms(1) by (simp add: getPluginState_def)
  from updateStateUpdateResult_cases [OF L assms(2), of updatedRun updatedResult]
  obtain new1 a1 where
    rel1: "list_all2 (runReplaced updatedRun updatedResult (nextAddr m)) (val runsL) new1" and
    le1: "nextAddr m \<le> a1" and
    r1: "updateStateUpdateResult plugin updatedRun updatedResult LATEST m =
       (if \<exists>r \<in> set (val runsL). runHit updatedRun updatedResult (val r)
        then Inr (privateStateNext
              (Obj (nextAddr m) (putPluginState (val (privateState m)) LATEST
                 ((getPluginState (val (privateState m)) LATEST)
                    (plugin \<mapsto> entryL\<lparr>runs := Some (Obj (nextAddr m + 1) new1)\<rparr>))))
              (m\<lparr>nextAddr := a1\<rparr>))
        else Inr (m\<lparr>nextAddr := a1\<rparr>))"
    by blast
  define newL where "newL =
    (if \<exists>r \<in> set (val runsL). runHit updatedRun updatedResult (val r)
     then Obj (nextAddr m + 1) new1 else runsL)"
  have relL: "list_all2 (runReplaced updatedRun updatedResult (nextAddr m)) (val runsL) (val newL)"
    using rel1 no_hit_same [OF rel1] by (auto simp: newL_def)
  obtain m1 where m1: "updateStateUpdateResult plugin updatedRun updatedResult LATEST m = Inr m1"
    using r1 by (cases "\<exists>r \<in> set (val runsL). runHit updatedRun updatedResult (val r)") auto
  have same_entry: "entryL\<lparr>runs := Some runsL\<rparr> = entryL"
    using assms(2) by simp
  have m1L: "pluginStateLatest (val (privateState m1))
         = (pluginStateLatest (val (privateState m)))(plugin \<mapsto> entryL\<lparr>runs := Some newL\<rparr>)"
    using m1 r1 assms(1) same_entry
    by (auto simp: newL_def privateStateNext_def putPluginState_def getPluginState_def
        split: if_splits)
  have m1S: "pluginStateSelected (val (privateState m1)) = pluginStateSelected (val (privateState m))"
    using m1 r1
    by (auto simp: privateStateNext_def putPluginState_def split: if_splits)
  have m1P: "patchsetNumberSelected (val (privateState m1)) = patchsetNumberSelected (val (privateState m))"
    using m1 r1
    by (auto simp: privateStateNext_def putPluginState_def split: if_splits)
  have m1A: "nextAddr m \<le> nextAddr m1"
    using m1 r1 le1 by (auto simp: privateStateNext_def split: if_splits)
  have S: "getPluginState (val (privateState m1)) SELECTED plugin = Some entryS"
    using assms(3) m1S by (simp add: getPluginState_def)
  from updateStateUpdateResult_cases [OF S assms(4), of updatedRun updatedResult]
  obtain new2 a2 where
    rel2: "list_all2 (runReplaced updatedRun updatedResult (nextAddr m1)) (val runsS) new2" and
    r2: "updateStateUpdateResult plugin updatedRun updatedResult SELECTED m1 =
       (if \<exists>r \<in> set (val runsS). runHit updatedRun updatedResult (val r)
        then Inr (privateStateNext
              (Obj (nextAddr m1) (putPluginState (val (privateState m1)) SELECTED
                 ((getPluginState (val (privateState m1)) SELECTED)
                    (plugin \<mapsto> entryS\<lparr>runs := Some (Obj (nextAddr m1 + 1) new2)\<rparr>))))
              (m1\<lparr>nextAddr := a2\<rparr>))
        else Inr (m1\<lparr>nextAddr := a2\<rparr>))"
    by blast
  have "runReplaced updatedRun updatedResult (nextAddr m) x y"
    if "runReplaced updatedRun updatedResult (nextAddr m1) x y" for x y
    using m1A that by (rule runReplaced_mono)
  with rel2 have rel2': "list_all2 (runReplaced updatedRun updatedResult (nextAddr m)) (val runsS) new2"
    by (auto elim!: list_all2_mono)
  define newS where "newS =
    (if \<exists>r \<in> set (val runsS). runHit updatedRun updatedResult (val r)
     then Obj (nextAddr m1 + 1) new2 else runsS)"
  have relS: "list_all2 (runReplaced updatedRun updatedResult (nextAddr m)) (val runsS) (val newS)"
    using rel2' no_hit_same [OF rel2'] by (auto simp: newS_def)
  obtain m2 where m2: "updateStateUpdateResult plugin updatedRun updatedResult SELECTED m1 = Inr m2"
    using r2 by (cases "\<exists>r \<in> set (val runsS). runHit updatedRun updatedResult (val r)") auto
  have same_entryS: "entryS\<lparr>runs := Some runsS\<rparr> = entryS"
    using assms(4) by simp
  have m2S: "pluginStateSelected (val (privateState m2))
         = (pluginStateSelected (val (privateState m)))(plugin \<mapsto> entryS\<lparr>runs := Some newS\<rparr>)"
    using m2 r2 assms(3) m1S same_entryS
    by (auto simp: newS_def privateStateNext_def putPluginState_def getPluginState_def
        split: if_splits)
  have m2L: "pluginStateLatest (val (privateState m2)) = pluginStateLatest (val (privateState m1))"
    using m2 r2
    by (auto simp: privateStateNext_def putPluginState_def split: if_splits)
  have m2P: "patchsetNumberSelected (val (privateState m2)) = patchsetNumberSelected (val (privateState m1))"
    using m2 r2
    by (auto simp: privateStateNext_def putPluginState_def split: if_splits)
  have "updateResult plugin updatedRun updatedResult m = Inr m2"
    using m1 m2 by (simp add: updateResult_def)
  moreover have "if \<exists>r \<in> set (val runsL). runHit updatedRun updatedResult (val r)
         then nextAddr m \<le> addr newL else newL = runsL"
    by (simp add: newL_def)
  moreover have "if \<exists>r \<in> set (val runsS). runHit updatedRun updatedResult (val r)
         then nextAddr m \<le> addr newS else newS = runsS"
    using m1A by (simp add: newS_def)
  ultimately show ?thesis
    using m1L m2L m2S relL relS m1P m2P
    by (intro exI [of _ m2] exI [of _ newL] exI [of _ newS]) simp
qed

theorem updateResult_replaces_witness:
  "pluginStateLatest (val (privateState (exampleModel (Some ''r1'')))) ''ci''
     = Some (exampleEntry (Some ''r1''))
   \<and> runs (exampleEntry (Some ''r1'')) = Some (Obj 4 [exampleRun (Some ''r1'')])
   \<and> pluginStateSelected (val (privateState (exampleModel (Some ''r1'')))) ''ci'' = Some freshEntry
   \<and> runs freshEntry = Some (Obj 1 [])
   \<and> runHit exampleUpdatedRun (exampleUpdatedResult (Some ''r1'')) (val (exampleRun (Some ''r1'')))
   \<and> (\<exists>m' newL newS.
        updateResult ''ci'' exampleUpdatedRun (exampleUpdatedResult (Some ''r1''))
          (exampleModel (Some ''r1'')) = Inr m'
        \<and> pluginStateLatest (val (privateState m')) ''ci''
            = Some ((exampleEntry (Some ''r1''))\<lparr>runs := Some newL\<rparr>)
        \<and> pluginStateSelected (val (privateState m')) ''ci'' = Some (freshEntry\<lparr>runs := Some newS\<rparr>)
        \<and> list_all2 (runReplaced exampleUpdatedRun (exampleUpdatedResult (Some ''r1''))
              (nextAddr (exampleModel (Some ''r1''))))
             [exampleRun (Some ''r1'')] (val newL)
        \<and> newS = Obj 1 [])"
proof -
  have h1: "pluginStateLatest (val (privateState (exampleModel (Some ''r1'')))) ''ci''
     = Some (exampleEntry (Some ''r1''))"
    by (simp add: exampleModel_def)
  have h2: "runs (exampleEntry (Some ''r1'')) = Some (Obj 4 [exampleRun (Some ''r1'')])"
    by (simp add: exampleEntry_def)
  have h3: "pluginStateSelected (val (privateState (exampleModel (Some ''r1'')))) ''ci''
     = Some freshEntry"
    by (simp add: exampleModel_def)
  have h4: "runs freshEntry = Some (Obj 1 [])"
    by (simp add: freshEntry_def)
  have h5: "runHit exampleUpdatedRun (exampleUpdatedResult (Some ''r1''))
      (val (exampleRun (Some ''r1'')))"
    by (simp add: runHit_def runMatches_def resultMatches_def truthyString_def resultsOrEmpty_def
        exampleRun_def exampleResult_def exampleUpdatedRun_def exampleUpdatedResult_def)
  from updateResult_replaces [OF h1 h2 h3 h4, of exampleUpdatedRun "exampleUpdatedResult (Some ''r1'')"]
  obtain m' newL newS where
    "updateResult ''ci'' exampleUpdatedRun (exampleUpdatedResult (Some ''r1''))
          (exampleModel (Some ''r1'')) = Inr m'"
    "pluginStateLatest (val (privateState m'))
         = (pluginStateLatest (val (privateState (exampleModel (Some ''r1'')))))
             (''ci'' \<mapsto> (exampleEntry (Some ''r1''))\<lparr>runs := Some newL\<rparr>)"
    "pluginStateSelected (val (privateState m'))
         = (pluginStateSelected (val (privateState (exampleModel (Some ''r1'')))))
             (''ci'' \<mapsto> freshEntry\<lparr>runs := Some newS\<rparr>)"
    "list_all2 (runReplaced exampleUpdatedRun (exampleUpdatedResult (Some ''r1''))
              (nextAddr (exampleModel (Some ''r1''))))
             (val (Obj 4 [exampleRun (Some ''r1'')])) (val newL)"
    "if \<exists>r \<in> set (val (Obj 1 [])).
          runHit exampleUpdatedRun (exampleUpdatedResult (Some ''r1'')) (val r)
     then nextAddr (exampleModel (Some ''r1'')) \<le> addr newS else newS = Obj 1 []"
    by blast
  then have
    "updateResult ''ci'' exampleUpdatedRun (exampleUpdatedResult (Some ''r1''))
          (exampleModel (Some ''r1'')) = Inr m'
     \<and> pluginStateLatest (val (privateState m')) ''ci''
            = Some ((exampleEntry (Some ''r1''))\<lparr>runs := Some newL\<rparr>)
     \<and> pluginStateSelected (val (privateState m')) ''ci'' = Some (freshEntry\<lparr>runs := Some newS\<rparr>)
     \<and> list_all2 (runReplaced exampleUpdatedRun (exampleUpdatedResult (Some ''r1''))
              (nextAddr (exampleModel (Some ''r1''))))
             [exampleRun (Some ''r1'')] (val newL)
     \<and> newS = Obj 1 []"
    by simp
  with h1 h2 h3 h4 h5 show ?thesis by blast
qed

text \<open>The same call, evaluated: the result and its run are new objects.\<close>

lemma updateResult_example:
  "updateResult ''ci'' exampleUpdatedRun (exampleUpdatedResult (Some ''r1'')) (exampleModel (Some ''r1''))
   = Inr ((exampleModel (Some ''r1''))
       \<lparr>privateState :=
          Obj 6 \<lparr>patchsetNumberSelected = None,
                 pluginStateLatest = [''ci'' \<mapsto> (exampleEntry (Some ''r1''))
                   \<lparr>runs := Some (Obj 7
                      [Obj 9 ((val (exampleRun (Some ''r1'')))
                         \<lparr>results := Some
                            [Obj 8 \<lparr>CheckResultApi.externalId = Some ''r1'', category = SUCCESS,
                                    summary = ''passed'', CheckResultApi.message = None,
                                    internalResultId = ''build-7-2-1-0''\<rparr>]\<rparr>)])\<rparr>],
                 pluginStateSelected = [''ci'' \<mapsto> freshEntry]\<rparr>,
        published :=
          [Obj 6 \<lparr>patchsetNumberSelected = None,
                 pluginStateLatest = [''ci'' \<mapsto> (exampleEntry (Some ''r1''))
                   \<lparr>runs := Some (Obj 7
                      [Obj 9 ((val (exampleRun (Some ''r1'')))
                         \<lparr>results := Some
                            [Obj 8 \<lparr>CheckResultApi.externalId = Some ''r1'', category = SUCCESS,
                                    summary = ''passed'', CheckResultApi.message = None,
                                    internalResultId = ''build-7-2-1-0''\<rparr>]\<rparr>)])\<rparr>],
                 pluginStateSelected = [''ci'' \<mapsto> freshEntry]\<rparr>],
        nextAddr := 12\<rparr>)"
  by (simp add: updateResult_def updateStateUpdateResult_def updateOneRun_def updateOneResult_def
      runMatches_def resultMatches_def truthyString_def resultsOrEmpty_def privateStateNext_def
      getPluginState_def putPluginState_def exampleModel_def exampleEntry_def exampleRun_def exampleResult_def
      exampleUpdatedRun_def exampleUpdatedResult_def freshEntry_def initialModel_def Let_def)

text \<open>
  A result whose \<open>externalId\<close> is the empty string is not replaced, although it agrees
  with the given result on \<open>externalId\<close> and its run agrees with the given run: the
  model stays as it was, up to the counter of addresses.
\<close>

theorem updateResult_empty_externalId_counterexample:
  "runMatches exampleUpdatedRun (val (exampleRun (Some '''')))
   \<and> CheckResultApi.externalId (val (exampleResult (Some '''')))
       = CheckResultApi.externalId (exampleUpdatedResult (Some ''''))
   \<and> pluginStateLatest (val (privateState (exampleModel (Some '''')))) ''ci''
       = Some (exampleEntry (Some ''''))
   \<and> runs (exampleEntry (Some '''')) = Some (Obj 4 [exampleRun (Some '''')])
   \<and> results (val (exampleRun (Some ''''))) = Some [exampleResult (Some '''')]
   \<and> updateResult ''ci'' exampleUpdatedRun (exampleUpdatedResult (Some ''''))
        (exampleModel (Some ''''))
       = Inr ((exampleModel (Some ''''))\<lparr>nextAddr := 10\<rparr>)"
  by (simp add: updateResult_def updateStateUpdateResult_def updateOneRun_def updateOneResult_def
      runMatches_def resultMatches_def truthyString_def resultsOrEmpty_def privateStateNext_def
      getPluginState_def putPluginState_def exampleModel_def exampleEntry_def exampleRun_def exampleResult_def
      exampleUpdatedRun_def exampleUpdatedResult_def freshEntry_def initialModel_def Let_def)

subsection \<open>Storing the same results twice\<close>

lemma mapResults_data:
  "map val (fst (mapResults runId i rs a)) = map val (fst (mapResults runId i rs b))"
proof (induction rs arbitrary: i a b)
  case Nil
  then show ?case by simp
next
  case (Cons r rs)
  from Cons [of "Suc i" "Suc a" "Suc b"] show ?case
    by (simp add: Let_def case_prod_beta)
qed

lemma mapOneRun_data:
  assumes "mapOneRun plugin am r a = Inr (x, a1)"
  shows "\<exists>y b1. mapOneRun plugin am r b = Inr (y, b1) \<and> runData y = runData x"
proof -
  from assms obtain info where info: "am (checkName r) = Some info"
    by (auto simp: mapOneRun_def Let_def split: option.splits)
  from assms info mapResults_data [of _ 0 "resultsOrEmpty r" a b] show ?thesis
    by (auto simp: mapOneRun_def Let_def case_prod_beta runData_def)
qed

lemma mapRuns_data:
  "mapRuns plugin am rs a = Inr (ys, a') \<Longrightarrow>
     \<exists>zs b'. mapRuns plugin am rs b = Inr (zs, b') \<and> map runData zs = map runData ys"
proof (induction rs arbitrary: a b ys a')
  case Nil
  then show ?case by simp
next
  case (Cons r rs)
  from Cons.prems obtain x a1 rest where
    x: "mapOneRun plugin am r a = Inr (x, a1)" and
    rest: "mapRuns plugin am rs a1 = Inr (rest, a')" and
    ys: "ys = x # rest"
    by (auto split: sum.splits)
  from mapOneRun_data [OF x, of b] obtain y b1 where
    y: "mapOneRun plugin am r b = Inr (y, b1)" "runData y = runData x"
    by auto
  from Cons.IH [OF rest, of b1] obtain zs b2 where
    zs: "mapRuns plugin am rs b1 = Inr (zs, b2)" "map runData zs = map runData rest"
    by auto
  from y zs ys show ?case by simp
qed

lemma updateStateSetResults_result:
  assumes "updateStateSetResults createAttemptMap plugin newRuns newActions newLinks which m = Inr m1"
  shows "\<exists>created ys a'.
     createAttemptMap newRuns = Inr created \<and>
     mapRuns plugin (map_option sortAttempts \<circ> created) newRuns (nextAddr m + 2) = Inr (ys, a') \<and>
     m1 = privateStateNext
      (Obj (nextAddr m) (putPluginState (val (privateState m)) which
         ((getPluginState (val (privateState m)) which)(plugin \<mapsto>
            (spread (getPluginState (val (privateState m)) which plugin))
               \<lparr>loading := Some False, firstTimeLoad := Some False,
                errorMessage := None, loginCallback := None,
                runs := Some (Obj (nextAddr m + 1) ys),
                actions := Some (case newActions of None \<Rightarrow> [] | Some xs \<Rightarrow> xs),
                links := Some (case newLinks of None \<Rightarrow> [] | Some xs \<Rightarrow> xs)\<rparr>))))
      (m\<lparr>nextAddr := a'\<rparr>)"
  using assms
  by (auto simp: updateStateSetResults_def Let_def split: sum.splits)

text \<open>
  Claim C7. When \<open>updateStateSetResults\<close> returns for a plugin, runs, actions, links and a
  context, the same call on the state it produced returns too, and the data of every
  entry of both contexts (its own properties, and its runs with their derived properties
  \<open>internalRunId\<close>, \<open>isLatestAttempt\<close>, \<open>isSingleAttempt\<close>, \<open>attemptDetails\<close> and the
  \<open>internalResultId\<close> of their results) are the same after the second call as after the
  first; only the addresses of the objects differ.
\<close>

theorem updateStateSetResults_idempotent:
  assumes "updateStateSetResults createAttemptMap plugin newRuns newActions newLinks which m = Inr m1"
  shows "\<exists>m2. updateStateSetResults createAttemptMap plugin newRuns newActions newLinks which m1 = Inr m2
           \<and> (\<forall>which' plugin'.
                 map_option providerData (getPluginState (val (privateState m2)) which' plugin')
                 = map_option providerData (getPluginState (val (privateState m1)) which' plugin'))
           \<and> patchsetNumberSelected (val (privateState m2)) = patchsetNumberSelected (val (privateState m1))"
proof -
  from updateStateSetResults_result [OF assms] obtain created ys a' where
    created: "createAttemptMap newRuns = Inr created" and
    ys: "mapRuns plugin (map_option sortAttempts \<circ> created) newRuns (nextAddr m + 2) = Inr (ys, a')" and
    m1: "m1 = privateStateNext
      (Obj (nextAddr m) (putPluginState (val (privateState m)) which
         ((getPluginState (val (privateState m)) which)(plugin \<mapsto>
            (spread (getPluginState (val (privateState m)) which plugin))
               \<lparr>loading := Some False, firstTimeLoad := Some False,
                errorMessage := None, loginCallback := None,
                runs := Some (Obj (nextAddr m + 1) ys),
                actions := Some (case newActions of None \<Rightarrow> [] | Some xs \<Rightarrow> xs),
                links := Some (case newLinks of None \<Rightarrow> [] | Some xs \<Rightarrow> xs)\<rparr>))))
      (m\<lparr>nextAddr := a'\<rparr>)"
    by blast
  from mapRuns_data [OF ys, of "nextAddr m1 + 2"] obtain zs b' where
    zs: "mapRuns plugin (map_option sortAttempts \<circ> created) newRuns (nextAddr m1 + 2) = Inr (zs, b')"
      "map runData zs = map runData ys"
    by auto
  define old where "old = spread (getPluginState (val (privateState m)) which plugin)"
  have look1: "getPluginState (val (privateState m1)) which plugin = Some (old
               \<lparr>loading := Some False, firstTimeLoad := Some False,
                errorMessage := None, loginCallback := None,
                runs := Some (Obj (nextAddr m + 1) ys),
                actions := Some (case newActions of None \<Rightarrow> [] | Some xs \<Rightarrow> xs),
                links := Some (case newLinks of None \<Rightarrow> [] | Some xs \<Rightarrow> xs)\<rparr>)"
    by (simp add: m1 privateStateNext_def getPluginState_put old_def)
  have m2: "updateStateSetResults createAttemptMap plugin newRuns newActions newLinks which m1 =
    Inr (privateStateNext
      (Obj (nextAddr m1) (putPluginState (val (privateState m1)) which
         ((getPluginState (val (privateState m1)) which)(plugin \<mapsto>
            (spread (getPluginState (val (privateState m1)) which plugin))
               \<lparr>loading := Some False, firstTimeLoad := Some False,
                errorMessage := None, loginCallback := None,
                runs := Some (Obj (nextAddr m1 + 1) zs),
                actions := Some (case newActions of None \<Rightarrow> [] | Some xs \<Rightarrow> xs),
                links := Some (case newLinks of None \<Rightarrow> [] | Some xs \<Rightarrow> xs)\<rparr>))))
      (m1\<lparr>nextAddr := b'\<rparr>))"
    using created zs(1) by (simp add: updateStateSetResults_def Let_def)
  have same: "map_option providerData
         (getPluginState (val (privateState (privateStateNext
      (Obj (nextAddr m1) (putPluginState (val (privateState m1)) which
         ((getPluginState (val (privateState m1)) which)(plugin \<mapsto>
            (spread (getPluginState (val (privateState m1)) which plugin))
               \<lparr>loading := Some False, firstTimeLoad := Some False,
                errorMessage := None, loginCallback := None,
                runs := Some (Obj (nextAddr m1 + 1) zs),
                actions := Some (case newActions of None \<Rightarrow> [] | Some xs \<Rightarrow> xs),
                links := Some (case newLinks of None \<Rightarrow> [] | Some xs \<Rightarrow> xs)\<rparr>))))
      (m1\<lparr>nextAddr := b'\<rparr>)))) which' plugin')
       = map_option providerData (getPluginState (val (privateState m1)) which' plugin')"
    for which' plugin'
    using zs(2) look1
    by (simp add: privateStateNext_def getPluginState_put spread_def providerData_def)
  have ps: "patchsetNumberSelected (val (privateState (privateStateNext
      (Obj a (putPluginState (val (privateState m1)) which P)) M)))
      = patchsetNumberSelected (val (privateState m1))" for a P M
    by (simp add: privateStateNext_def putPluginState_def)
  show ?thesis
    unfolding m2 using same ps by simp
qed

subsection \<open>Exceptions of the state store\<close>

lemma mapOneRun_returns:
  "(\<exists>y a'. mapOneRun plugin am r a = Inr (y, a')) \<longleftrightarrow> am (checkName r) \<noteq> None"
  by (auto simp: mapOneRun_def Let_def case_prod_beta split: option.splits)

lemma mapOneRun_error:
  "mapOneRun plugin am r a = Inl e \<Longrightarrow> e = Error ''attemptInfo''"
  by (auto simp: mapOneRun_def Let_def case_prod_beta split: option.splits)

lemma mapRuns_returns:
  "(\<exists>ys a'. mapRuns plugin am rs a = Inr (ys, a')) \<longleftrightarrow> (\<forall>r \<in> set rs. am (checkName r) \<noteq> None)"
proof (induction rs arbitrary: a)
  case Nil
  then show ?case by simp
next
  case (Cons r rs)
  show ?case
  proof (cases "mapOneRun plugin am r a")
    case (Inl e)
    with mapOneRun_returns [of plugin am r a] show ?thesis by auto
  next
    case (Inr p)
    obtain y a1 where p: "p = (y, a1)" by (cases p)
    with Inr mapOneRun_returns [of plugin am r a] have ok: "am (checkName r) \<noteq> None"
      by auto
    from Inr p Cons.IH [of a1] ok show ?thesis
      by (auto split: sum.splits)
  qed
qed

lemma updateStateSetResults_returns:
  "(\<exists>m'. updateStateSetResults createAttemptMap plugin newRuns newActions newLinks which m = Inr m')
   \<longleftrightarrow> (\<exists>created. createAttemptMap newRuns = Inr created
          \<and> (\<forall>run \<in> set newRuns. created (checkName run) \<noteq> None))"
proof (cases "createAttemptMap newRuns")
  case (Inl e)
  then show ?thesis by (simp add: updateStateSetResults_def)
next
  case (Inr created)
  have dom: "(map_option sortAttempts \<circ> created) c \<noteq> None \<longleftrightarrow> created c \<noteq> None" for c
    by simp
  from mapRuns_returns [of plugin "map_option sortAttempts \<circ> created" newRuns "nextAddr m + 2"]
  have "(\<exists>ys a'. mapRuns plugin (map_option sortAttempts \<circ> created) newRuns (nextAddr m + 2)
            = Inr (ys, a'))
        \<longleftrightarrow> (\<forall>run \<in> set newRuns. created (checkName run) \<noteq> None)"
    by (simp only: dom)
  with Inr show ?thesis
    by (auto simp: updateStateSetResults_def Let_def split: sum.splits)
qed

lemma updateStateUpdateResult_returns:
  "(\<exists>m'. updateStateUpdateResult plugin ur u which m = Inr m')
   \<longleftrightarrow> (\<exists>entry rs. getPluginState (val (privateState m)) which plugin = Some entry
          \<and> runs entry = Some rs)"
  by (auto simp: updateStateUpdateResult_def Let_def case_prod_beta split: option.splits)

lemma updateStateUpdateResult_error:
  "updateStateUpdateResult plugin ur u which m = Inl e \<Longrightarrow> e = TypeError"
  by (auto simp: updateStateUpdateResult_def Let_def case_prod_beta split: option.splits if_splits)

theorem updateStateSetResults_idempotent_witness:
  "\<exists>m1 m2.
     updateStateSetResults exampleAttemptMap ''ci'' [exampleRunApi] None None LATEST initialModel
       = Inr m1
     \<and> updateStateSetResults exampleAttemptMap ''ci'' [exampleRunApi] None None LATEST m1 = Inr m2
     \<and> map_option providerData (getPluginState (val (privateState m2)) LATEST ''ci'')
         = map_option providerData (getPluginState (val (privateState m1)) LATEST ''ci'')"
proof -
  have "\<exists>created. exampleAttemptMap [exampleRunApi] = Inr created
          \<and> (\<forall>run \<in> set [exampleRunApi]. created (checkName run) \<noteq> None)"
    by (simp add: exampleAttemptMap_def exampleRunApi_def)
  with updateStateSetResults_returns
    [of exampleAttemptMap "''ci''" "[exampleRunApi]" None None LATEST initialModel]
  obtain m1 where m1:
    "updateStateSetResults exampleAttemptMap ''ci'' [exampleRunApi] None None LATEST initialModel
       = Inr m1"
    by blast
  from updateStateSetResults_idempotent [OF m1] m1 show ?thesis by blast
qed

text \<open>The state after the first of the two calls, without addresses.\<close>

lemma updateStateSetResults_example:
  "map_option (\<lambda>m'. map_option providerData (getPluginState (val (privateState m')) LATEST ''ci''))
     (case updateStateSetResults exampleAttemptMap ''ci'' [exampleRunApi] None None LATEST initialModel
      of Inl e \<Rightarrow> None | Inr m' \<Rightarrow> Some m')
   = Some (Some
      (\<lparr>pluginName = None, loading = Some False, firstTimeLoad = Some False,
        errorMessage = None, loginCallback = None, runs = None,
        actions = Some [], links = Some []\<rparr>,
       Some [\<lparr>change = 7, patchset = 2, CheckRunApi.attempt = Some 1,
              CheckRunApi.externalId = None, checkName = ''build'', status = COMPLETED,
              results = Some [\<lparr>CheckResultApi.externalId = Some ''r1'', category = ERROR,
                       summary = ''failed'', CheckResultApi.message = None,
                       internalResultId = ''build-7-2-1-0''\<rparr>],
              CheckRun.pluginName = ''ci'', internalRunId = ''build-7-2-1'',
              isLatestAttempt = True, CheckRun.isSingleAttempt = True,
              attemptDetails = [\<lparr>AttemptDetail.attempt = Some 1, icon = ''check''\<rparr>]\<rparr>]))"
  by (simp add: updateStateSetResults_def mapOneRun_def exampleAttemptMap_def exampleRunApi_def
      sortAttempts_def resultsOrEmpty_def string_of_int_def string_of_number_def
      string_of_nat.simps privateStateNext_def getPluginState_def putPluginState_def
      spread_def emptyObject_def providerData_def runData_def initialModel_def Let_def)

text \<open>
  Claim C5, as the code has it. \<open>updateStateSetLoading\<close>, \<open>updateStateSetError\<close> and
  \<open>updateStateSetNotLoggedIn\<close> never throw; for a plugin without an entry,
  \<open>updateStateSetLoading\<close> stores the entry that has the property \<open>loading\<close> only.
  \<open>updateStateUpdateResult\<close> returns exactly when the plugin has an entry with runs in the
  context, and throws a \<open>TypeError\<close> otherwise. \<open>updateStateSetResults\<close> returns exactly
  when \<open>createAttemptMap\<close> returns a map that has an entry for the check name of every
  run.
\<close>

theorem mutations_throw_only_unregistered:
  "(\<exists>m'. call (SetLoading plugin which) m = Inr m')
   \<and> (\<exists>m'. call (SetError plugin msg which) m = Inr m')
   \<and> (\<exists>m'. call (SetNotLoggedIn plugin cb which) m = Inr m')
   \<and> (getPluginState (val (privateState m)) which plugin = None \<longrightarrow>
        getPluginState (val (privateState (updateStateSetLoading plugin which m))) which plugin
          = Some (emptyObject\<lparr>loading := Some True\<rparr>))
   \<and> ((\<exists>m'. updateStateUpdateResult plugin updatedRun updatedResult which m = Inr m')
        \<longleftrightarrow> (\<exists>entry rs. getPluginState (val (privateState m)) which plugin = Some entry
               \<and> runs entry = Some rs))
   \<and> (\<forall>e. updateStateUpdateResult plugin updatedRun updatedResult which m = Inl e \<longrightarrow> e = TypeError)
   \<and> ((\<exists>m'. updateStateSetResults createAttemptMap plugin newRuns newActions newLinks which m = Inr m')
        \<longleftrightarrow> (\<exists>created. createAttemptMap newRuns = Inr created
               \<and> (\<forall>run \<in> set newRuns. created (checkName run) \<noteq> None)))"
proof (intro conjI)
  show "\<exists>m'. call (SetLoading plugin which) m = Inr m'" by simp
  show "\<exists>m'. call (SetError plugin msg which) m = Inr m'" by simp
  show "\<exists>m'. call (SetNotLoggedIn plugin cb which) m = Inr m'" by simp
  show "getPluginState (val (privateState m)) which plugin = None \<longrightarrow>
        getPluginState (val (privateState (updateStateSetLoading plugin which m))) which plugin
          = Some (emptyObject\<lparr>loading := Some True\<rparr>)"
    by (simp add: updateStateSetLoading_def privateStateNext_def getPluginState_put spread_def Let_def)
  show "(\<exists>m'. updateStateUpdateResult plugin updatedRun updatedResult which m = Inr m')
        \<longleftrightarrow> (\<exists>entry rs. getPluginState (val (privateState m)) which plugin = Some entry
               \<and> runs entry = Some rs)"
    by (rule updateStateUpdateResult_returns)
  show "\<forall>e. updateStateUpdateResult plugin updatedRun updatedResult which m = Inl e \<longrightarrow> e = TypeError"
    by (blast dest: updateStateUpdateResult_error)
  show "(\<exists>m'. updateStateSetResults createAttemptMap plugin newRuns newActions newLinks which m = Inr m')
        \<longleftrightarrow> (\<exists>created. createAttemptMap newRuns = Inr created
               \<and> (\<forall>run \<in> set newRuns. created (checkName run) \<noteq> None))"
    by (rule updateStateSetResults_returns)
qed

theorem mutations_throw_only_unregistered_witness:
  "getPluginState (val (privateState initialModel)) LATEST ''ci'' = None
   \<and> getPluginState (val (privateState (updateStateSetLoading ''ci'' LATEST initialModel))) LATEST ''ci''
       = Some (emptyObject\<lparr>loading := Some True\<rparr>)
   \<and> exampleAttemptMap [exampleRunApi]
       = Inr [''build'' \<mapsto>
            \<lparr>latestAttempt = Some 1, AttemptInfo.isSingleAttempt = True,
             attempts = [\<lparr>AttemptDetail.attempt = Some 1, icon = ''check''\<rparr>]\<rparr>]
   \<and> (\<exists>m'. updateStateSetResults exampleAttemptMap ''ci'' [exampleRunApi] None None LATEST
              initialModel = Inr m')"
proof -
  have h: "getPluginState (val (privateState initialModel)) LATEST ''ci'' = None"
    by (simp add: initialModel_def getPluginState_def)
  have c: "exampleAttemptMap [exampleRunApi]
       = Inr [''build'' \<mapsto>
            \<lparr>latestAttempt = Some 1, AttemptInfo.isSingleAttempt = True,
             attempts = [\<lparr>AttemptDetail.attempt = Some 1, icon = ''check''\<rparr>]\<rparr>]"
    by (simp add: exampleAttemptMap_def)
  have d: "\<forall>run \<in> set [exampleRunApi].
      [''build'' \<mapsto>
            \<lparr>latestAttempt = Some 1, AttemptInfo.isSingleAttempt = True,
             attempts = [\<lparr>AttemptDetail.attempt = Some 1, icon = ''check''\<rparr>]\<rparr>] (checkName run) \<noteq> None"
    by (simp add: exampleRunApi_def)
  from mutations_throw_only_unregistered
    [of "''ci''" LATEST initialModel _ _ _ _ exampleAttemptMap "[exampleRunApi]" None None] h c d
  show ?thesis by blast
qed

text \<open>For a plugin that was never registered, \<open>updateStateUpdateResult\<close> throws.\<close>

theorem updateStateUpdateResult_unregistered_counterexample:
  "updateStateUpdateResult ''ci'' exampleUpdatedRun (exampleUpdatedResult (Some ''r1'')) LATEST
     initialModel = Inl TypeError"
  by (simp add: updateStateUpdateResult_def getPluginState_def initialModel_def)

end
